theory Spec2Isabelle
  imports Complex_Main "HOL-Library.Word"
begin

unbundle bit_operations_syntax

section \<open>Bytes, machine integers and images\<close>

type_synonym byte = "8 word"
type_synonym i32 = "32 word"
type_synonym u16 = "16 word"

text \<open>
  An image of the codec library (\<^verbatim>\<open>cv::Mat\<close>): its dimensions and its pixel bytes.
  The default-constructed image \<^verbatim>\<open>cv::Mat()\<close> has no rows, no columns and no data;
  \<^verbatim>\<open>empty()\<close> holds when there is no data or no element. \<^verbatim>\<open>clone()\<close> copies the value,
  so it is the identity on this model.
\<close>

record mat =
  rows :: int
  cols :: int
  pixels :: "byte list"

definition Mat :: mat where
  "Mat = \<lparr>rows = 0, cols = 0, pixels = []\<rparr>"

definition mat_empty :: "mat \<Rightarrow> bool" where
  "mat_empty m = (pixels m = [] \<or> rows m * cols m = 0)"

section \<open>FrameBuffer: the per-type cache with a timeout\<close>

text \<open>
  \<^verbatim>\<open>submarine_receiver_depth3d.cpp\<close>, class \<^verbatim>\<open>FrameBuffer\<close> (the one of
  \<^verbatim>\<open>submarine_receiver_tcp.cpp\<close> is the same without \<^verbatim>\<open>raw_data\<close>).
  The steady clock is read inside the methods; here its reading is a parameter, a count of
  nanoseconds. \<^verbatim>\<open>std::map<int, TimedFrame>\<close> is an association list kept in key order;
  \<^verbatim>\<open>frames[k] = v\<close> assigns to the entry of \<^verbatim>\<open>k\<close> when there is one and inserts it
  otherwise.
\<close>

record TimedFrame =
  frame :: mat
  raw_data :: "byte list"
  timestamp :: int

type_synonym FrameBuffer = "(int \<times> TimedFrame) list"

fun map_assign :: "int \<Rightarrow> 'v \<Rightarrow> (int \<times> 'v) list \<Rightarrow> (int \<times> 'v) list" where
  "map_assign k v [] = [(k, v)]"
| "map_assign k v ((k', v') # m) =
     (if k = k' then (k, v) # m
      else if k < k' then (k, v) # (k', v') # m
      else (k', v') # map_assign k v m)"

fun map_find :: "int \<Rightarrow> (int \<times> 'v) list \<Rightarrow> 'v option" where
  "map_find k [] = None"
| "map_find k ((k', v') # m) = (if k = k' then Some v' else map_find k m)"

definition timeout_ms :: int where
  "timeout_ms = 2000"

text \<open>
  \<^verbatim>\<open>duration_cast<milliseconds>(now - timestamp).count()\<close>: the difference of two clock
  readings in nanoseconds, divided by a million with C++'s truncation towards zero.
\<close>

definition age_ms :: "int \<Rightarrow> int \<Rightarrow> int" where
  "age_ms now ts =
     (if ts \<le> now then (now - ts) div 1000000 else - ((ts - now) div 1000000))"

definition FrameBuffer_update :: "FrameBuffer \<Rightarrow> int \<Rightarrow> mat \<Rightarrow> int \<Rightarrow> FrameBuffer" where
  "FrameBuffer_update frames frameType fr now =
     map_assign frameType \<lparr>frame = fr, raw_data = [], timestamp = now\<rparr> frames"

definition FrameBuffer_updateRaw :: "FrameBuffer \<Rightarrow> int \<Rightarrow> byte list \<Rightarrow> int \<Rightarrow> FrameBuffer" where
  "FrameBuffer_updateRaw frames frameType dat now =
     map_assign frameType \<lparr>frame = Mat, raw_data = dat, timestamp = now\<rparr> frames"

definition FrameBuffer_get :: "FrameBuffer \<Rightarrow> int \<Rightarrow> int \<Rightarrow> mat" where
  "FrameBuffer_get frames frameType now =
     (case map_find frameType frames of
        Some it \<Rightarrow> if age_ms now (timestamp it) < timeout_ms then frame it else Mat
      | None \<Rightarrow> Mat)"

definition FrameBuffer_getRaw :: "FrameBuffer \<Rightarrow> int \<Rightarrow> int \<Rightarrow> byte list" where
  "FrameBuffer_getRaw frames frameType now =
     (case map_find frameType frames of
        Some it \<Rightarrow> if age_ms now (timestamp it) < timeout_ms then raw_data it else []
      | None \<Rightarrow> [])"

text \<open>The calls a receiver makes on its buffer, and a run of them from the empty buffer.\<close>

datatype fb_call = Update int mat int | UpdateRaw int "byte list" int

fun fb_step :: "FrameBuffer \<Rightarrow> fb_call \<Rightarrow> FrameBuffer" where
  "fb_step fb (Update k m now) = FrameBuffer_update fb k m now"
| "fb_step fb (UpdateRaw k d now) = FrameBuffer_updateRaw fb k d now"

definition fb_run :: "fb_call list \<Rightarrow> FrameBuffer" where
  "fb_run calls = foldl fb_step [] calls"

definition entries_of :: "int \<Rightarrow> FrameBuffer \<Rightarrow> nat" where
  "entries_of k fb = length (filter (\<lambda>e. fst e = k) fb)"

section \<open>Wire headers and datagram receive paths\<close>

text \<open>
  The senders and receivers write and read header fields through \<^verbatim>\<open>*(int*)&buf[k]\<close>,
  four bytes in the byte order of the machine; both ends are little-endian targets.
\<close>

definition store_i32 :: "i32 \<Rightarrow> byte list" where
  "store_i32 w = [ucast w, ucast (drop_bit 8 w), ucast (drop_bit 16 w), ucast (drop_bit 24 w)]"

definition load_i32 :: "byte list \<Rightarrow> nat \<Rightarrow> i32" where
  "load_i32 buf k =
     ucast (buf ! k) OR push_bit 8 (ucast (buf ! (k + 1)))
       OR push_bit 16 (ucast (buf ! (k + 2))) OR push_bit 24 (ucast (buf ! (k + 3)))"

text \<open>
  \<^verbatim>\<open>std::vector<T>(first, last)\<close> and \<^verbatim>\<open>assign(first, last)\<close> over a buffer: the
  elements from offset \<open>a\<close> up to offset \<open>b\<close>.
\<close>

definition slice_of :: "'a list \<Rightarrow> nat \<Rightarrow> nat \<Rightarrow> 'a list" where
  "slice_of buf a b = take (b - a) (drop a buf)"

text \<open>
  What the socket hands to one \<^verbatim>\<open>recvfrom\<close>: a datagram, or nothing within the receive
  timeout (the call returns \<open>-1\<close>). \<^verbatim>\<open>recvfrom(sockfd, buf, sz, ...)\<close> copies at most
  \<open>sz\<close> bytes of the datagram over the start of \<open>buf\<close>, leaves the rest of \<open>buf\<close> as it
  was, drops what does not fit, and returns the number of bytes copied.
\<close>

datatype rx = Dgram "byte list" | NoDgram

definition recvfrom :: "rx \<Rightarrow> byte list \<Rightarrow> nat \<Rightarrow> int \<times> byte list" where
  "recvfrom r buf sz =
     (case r of
        NoDgram \<Rightarrow> (- 1, buf)
      | Dgram d \<Rightarrow> (let n = min (length d) sz in (int n, take n d @ drop n buf)))"

text \<open>
  The result of a receive method: \<^verbatim>\<open>return false\<close>, \<^verbatim>\<open>return true\<close> with the values
  of its output parameters, or a read beyond the end of the buffer object (undefined
  behaviour in C++, kept apart here).
\<close>

datatype 'a outcome = Rejected | Accepted 'a | ReadOutOfBounds

text \<open>
  \<^verbatim>\<open>submarine_sender_depth3d.cpp\<close>, \<^verbatim>\<open>UDPSender::sendRawData\<close>: the packet handed to
  \<^verbatim>\<open>sendto\<close>, or nothing when the data is empty. \<^verbatim>\<open>data.size()\<close> is narrowed to
  \<^verbatim>\<open>int\<close> when it is stored in the header.
\<close>

definition sendRawData :: "byte list \<Rightarrow> i32 \<Rightarrow> i32 \<Rightarrow> byte list option" where
  "sendRawData dat frame_id frame_type =
     (if dat = [] then None
      else Some (store_i32 frame_id @ store_i32 frame_type
                   @ store_i32 (word_of_nat (length dat)) @ dat))"

text \<open>
  \<^verbatim>\<open>submarine_receiver_depth3d.cpp\<close>, \<^verbatim>\<open>UDPReceiver::receivePacket\<close>. \<open>stale\<close> is what
  the stack array \<^verbatim>\<open>tempBuf\<close> (65536 bytes) holds before the call. The result is
  \<^verbatim>\<open>(frame_id, frame_type, buffer)\<close>; what the output parameters hold after
  \<^verbatim>\<open>return false\<close> is not kept, no caller reads it.
\<close>

definition depth3d_receivePacket :: "byte list \<Rightarrow> rx \<Rightarrow> (i32 \<times> i32 \<times> byte list) outcome" where
  "depth3d_receivePacket stale r =
     (let (n, tempBuf) = recvfrom r stale 65536 in
      if n < 12 then Rejected
      else
        let frame_id = load_i32 tempBuf 0;
            frame_type = load_i32 tempBuf 4;
            data_size = load_i32 tempBuf 8
        in if sint data_size \<le> 0 \<or> sint data_size > 5000000 then Rejected
           else Accepted (frame_id, frame_type, slice_of tempBuf 12 (nat n)))"

text \<open>
  \<^verbatim>\<open>submarine_receiver.cpp\<close>, \<^verbatim>\<open>UDPReceiver::receiveFrame\<close>. The codec
  (\<^verbatim>\<open>cv::imdecode\<close>) is a parameter. The result is \<^verbatim>\<open>(frame, frame_type)\<close>.
\<close>

definition receiver_receiveFrame :: "(byte list \<Rightarrow> mat) \<Rightarrow> byte list \<Rightarrow> rx \<Rightarrow> (mat \<times> i32) outcome" where
  "receiver_receiveFrame imdecode stale r =
     (let (n, buffer) = recvfrom r stale 65536 in
      if n < 12 then Rejected
      else
        let frame_id = load_i32 buffer 0;
            frame_type = load_i32 buffer 4;
            data_size = load_i32 buffer 8
        in if sint frame_type < 0 \<or> sint frame_type > 3 then Rejected
           else
             let jpegData = slice_of buffer 12 (nat n);
                 decoded = imdecode jpegData
             in if mat_empty decoded then Rejected
                else if cols decoded \<le> 0 \<or> rows decoded \<le> 0
                        \<or> cols decoded > 2000 \<or> rows decoded > 2000 then Rejected
                else Accepted (decoded, frame_type))"

text \<open>
  \<^verbatim>\<open>color_receiver.cpp\<close>, \<^verbatim>\<open>UDPReceiver::receiveFrame\<close>: the 8-byte header
  \<^verbatim>\<open>[frame_id][data_size]\<close>. The result is \<^verbatim>\<open>(frame, frame_id)\<close>.
\<close>

definition color_receiveFrame :: "(byte list \<Rightarrow> mat) \<Rightarrow> byte list \<Rightarrow> rx \<Rightarrow> (mat \<times> i32) outcome" where
  "color_receiveFrame imdecode stale r =
     (let (n, buffer) = recvfrom r stale 65536 in
      if n < 8 then Rejected
      else
        let frame_id = load_i32 buffer 0;
            data_size = load_i32 buffer 4
        in if sint data_size \<le> 0 \<or> sint data_size > 2000000 then Rejected
           else
             let jpegData = slice_of buffer 8 (nat n);
                 decoded = imdecode jpegData
             in if mat_empty decoded then Rejected
                else Accepted (decoded, frame_id))"

text \<open>
  \<^verbatim>\<open>submarine_receiver_raw.cpp\<close>, \<^verbatim>\<open>UDPReceiver::receivePacket\<close>: the same 8-byte
  header, received into a fresh \<^verbatim>\<open>std::vector<char> tempBuf(maxSize)\<close> of two million zero
  bytes; the copy runs from offset 8 to offset \<open>8 + data_size\<close>. The result is
  \<^verbatim>\<open>(frame_id, buffer)\<close>.
\<close>

definition raw_maxSize :: nat where
  "raw_maxSize = 2000000"

definition raw_receivePacket :: "rx \<Rightarrow> (i32 \<times> byte list) outcome" where
  "raw_receivePacket r =
     (let (n, tempBuf) = recvfrom r (replicate raw_maxSize 0) raw_maxSize in
      if n < 8 then Rejected
      else
        let frame_id = load_i32 tempBuf 0;
            data_size = load_i32 tempBuf 4
        in if sint data_size \<le> 0 \<or> sint data_size > 2000000 then Rejected
           else if 8 + nat (sint data_size) > length tempBuf then ReadOutOfBounds
           else Accepted (frame_id, slice_of tempBuf 8 (8 + nat (sint data_size))))"

section \<open>Stream receive paths\<close>

text \<open>
  What successive \<^verbatim>\<open>recv\<close> calls on a connected socket find: bytes that have arrived, the
  peer's orderly shutdown (\<^verbatim>\<open>recv\<close> returns 0), or nothing within the receive timeout or
  an error (\<^verbatim>\<open>recv\<close> returns \<open>-1\<close>). A call asking for fewer bytes than have arrived
  takes a prefix and leaves the rest for the next call. On the empty list the call times
  out.
\<close>

datatype arrival = Bytes "byte list" | Shutdown | Timeout

type_synonym channel = "arrival list"

fun recv :: "channel \<Rightarrow> nat \<Rightarrow> int \<times> byte list \<times> channel" where
  "recv [] len = (- 1, [], [])"
| "recv (Timeout # ch) len = (- 1, [], ch)"
| "recv (Shutdown # ch) len = (0, [], ch)"
| "recv (Bytes bs # ch) len =
     (if length bs \<le> len then (int (length bs), bs, ch)
      else (int len, take len bs, Bytes (drop len bs) # ch))"

text \<open>
  The accumulation loop of the stream receivers,
  \<^verbatim>\<open>while (total_received < sz) { n = recv(sock, buf + total_received, sz - total_received, 0);
  if (n <= 0) return false; total_received += n; }\<close>:
  \<open>None\<close> is the \<^verbatim>\<open>return false\<close>, otherwise the filled buffer; with it the channel
  the loop leaves.
\<close>

function recv_loop :: "channel \<Rightarrow> nat \<Rightarrow> nat \<Rightarrow> byte list \<Rightarrow> byte list option \<times> channel" where
  "recv_loop ch sz total_received buf =
     (if total_received < sz then
        (case recv ch (sz - total_received) of
           (n, bs, ch') \<Rightarrow>
             if n \<le> 0 then (None, ch')
             else recv_loop ch' sz (total_received + nat n) (buf @ bs))
      else (Some buf, ch))"
  by pat_completeness auto
termination
  by (relation "measure (\<lambda>(ch, sz, total_received, buf). sz - total_received)") auto

declare recv_loop.simps [simp del]

text \<open>
  \<^verbatim>\<open>submarine_receiver_tcp.cpp\<close>, \<^verbatim>\<open>TCPReceiver::receiveFrame\<close>: the 12-byte header
  \<^verbatim>\<open>int32_t header[3]\<close>, then the payload. The result is \<^verbatim>\<open>(frame, frame_type)\<close> and the
  channel the call leaves.
\<close>

definition TCPReceiver_receiveFrame ::
  "(byte list \<Rightarrow> mat) \<Rightarrow> channel \<Rightarrow> (mat \<times> i32) option \<times> channel" where
  "TCPReceiver_receiveFrame imdecode ch =
     (case recv_loop ch 12 0 [] of
        (None, ch1) \<Rightarrow> (None, ch1)
      | (Some header, ch1) \<Rightarrow>
          let frame_id = load_i32 header 0;
              frame_type = load_i32 header 4;
              data_size = load_i32 header 8
          in if sint frame_type < 0 \<or> sint frame_type > 3
                \<or> sint data_size \<le> 0 \<or> sint data_size > 2000000 then (None, ch1)
             else
               (case recv_loop ch1 (nat (sint data_size)) 0 [] of
                  (None, ch2) \<Rightarrow> (None, ch2)
                | (Some buffer, ch2) \<Rightarrow>
                    let decoded = imdecode buffer
                    in if mat_empty decoded then (None, ch2)
                       else (Some (decoded, frame_type), ch2)))"

text \<open>
  \<^verbatim>\<open>switchable_receiver.cpp\<close>, \<^verbatim>\<open>SwitchableReceiver::receiveFrame\<close>: the 5-byte header
  \<^verbatim>\<open>[frame_type:u8][data_size:u32]\<close> is read by one \<^verbatim>\<open>recv\<close>, the payload by the
  loop. The state is the \<^verbatim>\<open>connected\<close> flag and the socket's channel.
\<close>

record SwitchableReceiver =
  connected :: bool
  sock :: channel

definition SwitchableReceiver_receiveFrame ::
  "(byte list \<Rightarrow> mat) \<Rightarrow> SwitchableReceiver \<Rightarrow> (mat \<times> int) option \<times> SwitchableReceiver" where
  "SwitchableReceiver_receiveFrame imdecode s =
     (if \<not> connected s then (None, s)
      else
        (case recv (sock s) 5 of
           (n, header, ch1) \<Rightarrow>
             if n \<noteq> 5 then
               (if n = 0 then (None, s\<lparr>connected := False, sock := ch1\<rparr>)
                else (None, s\<lparr>sock := ch1\<rparr>))
             else
               let frame_type = uint (header ! 0);
                   data_size = load_i32 header 1
               in if sint data_size \<le> 0 \<or> sint data_size > 5000000 then (None, s\<lparr>sock := ch1\<rparr>)
                  else
                    (case recv_loop ch1 (nat (sint data_size)) 0 [] of
                       (None, ch2) \<Rightarrow> (None, s\<lparr>connected := False, sock := ch2\<rparr>)
                     | (Some buffer, ch2) \<Rightarrow>
                         let decoded = imdecode buffer
                         in if mat_empty decoded then (None, s\<lparr>sock := ch2\<rparr>)
                            else (Some (decoded, frame_type), s\<lparr>sock := ch2\<rparr>))))"

text \<open>
  The bytes a channel delivers before its first read that returns zero or less: the
  concatenation of its leading non-empty arrivals.
\<close>

fun content :: "channel \<Rightarrow> byte list" where
  "content [] = []"
| "content (Bytes bs # ch) = (if bs = [] then [] else bs @ content ch)"
| "content (Shutdown # ch) = []"
| "content (Timeout # ch) = []"

section \<open>Single-precision values\<close>

text \<open>
  A \<^verbatim>\<open>float\<close> is a finite value, an infinity or a NaN. The comparisons are those of
  IEEE 754 (every comparison with a NaN is false) and are exact. The arithmetic, the
  trigonometric functions and the conversions round, so they are parameters: a floating-point
  unit \<open>U\<close> gives each of them as a function, and what is proved for every \<open>U\<close> holds
  whatever the rounding does. Negation is exact. The constants are the values the compiler
  stores: \<^verbatim>\<open>0.1f\<close>, \<^verbatim>\<open>0.2f\<close> and \<^verbatim>\<open>0.3f\<close> are the nearest single-precision values.
\<close>

datatype fl = NaN | NInf | Fin real | PInf

fun fless :: "fl \<Rightarrow> fl \<Rightarrow> bool" where
  "fless (Fin a) (Fin b) = (a < b)"
| "fless NInf (Fin b) = True"
| "fless NInf PInf = True"
| "fless (Fin a) PInf = True"
| "fless _ _ = False"

fun fle :: "fl \<Rightarrow> fl \<Rightarrow> bool" where
  "fle NaN b = False"
| "fle a NaN = False"
| "fle NInf b = True"
| "fle a PInf = True"
| "fle (Fin a) (Fin b) = (a \<le> b)"
| "fle a b = False"

fun fneg :: "fl \<Rightarrow> fl" where
  "fneg (Fin a) = Fin (- a)"
| "fneg NInf = PInf"
| "fneg PInf = NInf"
| "fneg NaN = NaN"

text \<open>\<^verbatim>\<open>std::max(a, b)\<close> is \<^verbatim>\<open>(a < b) ? b : a\<close> and \<^verbatim>\<open>std::min(a, b)\<close> is \<^verbatim>\<open>(b < a) ? b : a\<close>.\<close>

definition std_max :: "fl \<Rightarrow> fl \<Rightarrow> fl" where
  "std_max a b = (if fless a b then b else a)"

definition std_min :: "fl \<Rightarrow> fl \<Rightarrow> fl" where
  "std_min a b = (if fless b a then b else a)"

record fpu =
  fadd :: "fl \<Rightarrow> fl \<Rightarrow> fl"
  fsub :: "fl \<Rightarrow> fl \<Rightarrow> fl"
  fmul :: "fl \<Rightarrow> fl \<Rightarrow> fl"
  fdiv :: "fl \<Rightarrow> fl \<Rightarrow> fl"
  ftan :: "fl \<Rightarrow> fl"
  fcos :: "fl \<Rightarrow> fl"
  fsin :: "fl \<Rightarrow> fl"
  to_fl :: "int \<Rightarrow> fl"
  to_int :: "fl \<Rightarrow> int"

definition c0_1f :: fl where
  "c0_1f = Fin (13421773 / 134217728)"

definition c0_2f :: fl where
  "c0_2f = Fin (13421773 / 67108864)"

definition c0_3f :: fl where
  "c0_3f = Fin (5033165 / 16777216)"

text \<open>
  The unit that computes in the reals without rounding, for running the definitions on
  inputs where single precision is exact. Division by zero and the conversion of a value
  that is not finite are given IEEE results or 0.
\<close>

fun lift2 :: "(real \<Rightarrow> real \<Rightarrow> real) \<Rightarrow> fl \<Rightarrow> fl \<Rightarrow> fl" where
  "lift2 f (Fin a) (Fin b) = Fin (f a b)"
| "lift2 f _ _ = NaN"

fun lift1 :: "(real \<Rightarrow> real) \<Rightarrow> fl \<Rightarrow> fl" where
  "lift1 f (Fin a) = Fin (f a)"
| "lift1 f _ = NaN"

fun exact_div :: "fl \<Rightarrow> fl \<Rightarrow> fl" where
  "exact_div (Fin a) (Fin b) =
     (if b = 0 then (if a = 0 then NaN else if a < 0 then NInf else PInf) else Fin (a / b))"
| "exact_div _ _ = NaN"

fun exact_to_int :: "fl \<Rightarrow> int" where
  "exact_to_int (Fin a) = (if 0 \<le> a then \<lfloor>a\<rfloor> else \<lceil>a\<rceil>)"
| "exact_to_int _ = 0"

definition exact_fpu :: fpu where
  "exact_fpu = \<lparr>fadd = lift2 (+), fsub = lift2 (-), fmul = lift2 (*), fdiv = exact_div,
     ftan = lift1 tan, fcos = lift1 cos, fsin = lift1 sin,
     to_fl = (\<lambda>i. Fin (of_int i)), to_int = exact_to_int\<rparr>"

section \<open>Depth grids and scan order\<close>

text \<open>
  A depth frame: width, height, the value scale and the row-major 16-bit samples
  (\<^verbatim>\<open>ob::DepthFrame\<close>; for the receiver's viewer the decoded 16-bit \<^verbatim>\<open>cv::Mat\<close>, whose
  \<^verbatim>\<open>cols\<close> and \<^verbatim>\<open>rows\<close> are the width and height and which has no scale of its own).
  Widths, heights and indices are far below \<open>2^32\<close>, so the \<^verbatim>\<open>uint32_t\<close> arithmetic of the
  loops is that of the naturals.
\<close>

record depth_grid =
  depth_width :: nat
  depth_height :: nat
  value_scale :: fl
  depth_data :: "u16 list"

definition depth_at :: "depth_grid \<Rightarrow> nat \<Rightarrow> nat \<Rightarrow> u16" where
  "depth_at g x y = depth_data g ! (y * depth_width g + x)"

text \<open>The values of \<^verbatim>\<open>for (x = 0; x < n; x += step)\<close>.\<close>

definition strided :: "nat \<Rightarrow> nat \<Rightarrow> nat list" where
  "strided step n = map (\<lambda>k. k * step) [0 ..< (n + step - 1) div step]"

text \<open>
  The sample positions \<open>(x, y)\<close> in the order the nested loops
  \<^verbatim>\<open>for (y = 0; y < H; y += step) for (x = 0; x < W; x += step)\<close> visit them.
\<close>

definition scan_order :: "nat \<Rightarrow> nat \<Rightarrow> nat \<Rightarrow> (nat \<times> nat) list" where
  "scan_order step W H = concat (map (\<lambda>y. map (\<lambda>x. (x, y)) (strided step W)) (strided step H))"

type_synonym colour = "byte \<times> byte \<times> byte"

section \<open>PointCloudViewer: the rotatable 3D view\<close>

text \<open>\<^verbatim>\<open>submarine_receiver_depth3d.cpp\<close>, class \<^verbatim>\<open>PointCloudViewer\<close>.\<close>

record PointCloudViewer =
  yaw :: fl
  pitch :: fl
  zoom :: fl
  width :: int
  height :: int

definition PointCloudViewer_new :: "int \<Rightarrow> int \<Rightarrow> PointCloudViewer" where
  "PointCloudViewer_new w h = \<lparr>yaw = Fin 0, pitch = Fin (1 / 2), zoom = Fin 150, width = w, height = h\<rparr>"

definition PointCloudViewer_rotate :: "fpu \<Rightarrow> PointCloudViewer \<Rightarrow> fl \<Rightarrow> fl \<Rightarrow> PointCloudViewer" where
  "PointCloudViewer_rotate U v dy dp =
     (let v1 = v\<lparr>yaw := fadd U (yaw v) dy\<rparr>;
          v2 = v1\<lparr>pitch := fadd U (pitch v1) dp\<rparr>
      in v2\<lparr>pitch := std_max (Fin (- (3 / 2))) (std_min (Fin (3 / 2)) (pitch v2))\<rparr>)"

definition PointCloudViewer_setZoom :: "PointCloudViewer \<Rightarrow> fl \<Rightarrow> PointCloudViewer" where
  "PointCloudViewer_setZoom v z = v\<lparr>zoom := std_max (Fin 50) (std_min (Fin 500) z)\<rparr>"

datatype viewer_call = Rotate fl fl | SetZoom fl

fun viewer_step :: "fpu \<Rightarrow> PointCloudViewer \<Rightarrow> viewer_call \<Rightarrow> PointCloudViewer" where
  "viewer_step U v (Rotate dy dp) = PointCloudViewer_rotate U v dy dp"
| "viewer_step U v (SetZoom z) = PointCloudViewer_setZoom v z"

definition pitch_ok :: "PointCloudViewer \<Rightarrow> bool" where
  "pitch_ok v = (fle (Fin (- (3 / 2))) (pitch v) \<and> fle (pitch v) (Fin (3 / 2)))"

definition zoom_ok :: "PointCloudViewer \<Rightarrow> bool" where
  "zoom_ok v = (fle (Fin 50) (zoom v) \<and> fle (zoom v) (Fin 500))"

text \<open>
  The body of the sampling loop of \<^verbatim>\<open>project\<close>, in its three steps: the camera-space
  point \<^verbatim>\<open>(fx, fy, fz)\<close> of a depth in metres, the rotated point \<^verbatim>\<open>(rx, ry, rz)\<close> with
  \<^verbatim>\<open>rz\<close> moved back by 2, and the pixel written, if any: \<^verbatim>\<open>(py, px, color)\<close>.
\<close>

definition camera_point :: "fpu \<Rightarrow> depth_grid \<Rightarrow> nat \<Rightarrow> nat \<Rightarrow> fl \<Rightarrow> fl \<times> fl \<times> fl" where
  "camera_point U g x y depth =
     (let W = to_fl U (int (depth_width g));
          H = to_fl U (int (depth_height g));
          fx = fmul U depth
                 (ftan U (fmul U (fdiv U (fsub U (to_fl U (int x)) (fdiv U W (Fin 2))) W) (Fin 1)));
          fy = fneg depth;
          fz = fmul U depth
                 (ftan U (fmul U (fdiv U (fsub U (to_fl U (int y)) (fdiv U H (Fin 2))) W) (Fin 1)))
      in (fx, fy, fz))"

definition rotated_point :: "fpu \<Rightarrow> PointCloudViewer \<Rightarrow> fl \<times> fl \<times> fl \<Rightarrow> fl \<times> fl \<times> fl" where
  "rotated_point U v p =
     (case p of (fx, fy, fz) \<Rightarrow>
        let cyaw = fcos U (yaw v); syaw = fsin U (yaw v);
            cpitch = fcos U (pitch v); spitch = fsin U (pitch v);
            rx = fsub U (fmul U fx cyaw) (fmul U fy syaw);
            ry = fsub U (fadd U (fmul U (fmul U fx syaw) cpitch) (fmul U (fmul U fy cyaw) cpitch))
                   (fmul U fz spitch);
            rz = fadd U (fadd U (fmul U (fmul U fx syaw) spitch) (fmul U (fmul U fy cyaw) spitch))
                   (fmul U fz cpitch)
        in (rx, ry, fadd U rz (Fin 2)))"

definition project_sample ::
  "fpu \<Rightarrow> PointCloudViewer \<Rightarrow> depth_grid \<Rightarrow> nat \<Rightarrow> nat \<Rightarrow> (int \<times> int \<times> colour) option" where
  "project_sample U v g x y =
     (let depth_val = depth_at g x y in
      if depth_val = 0 \<or> depth_val > 5000 then None
      else
        let depth = fdiv U (to_fl U (uint depth_val)) (Fin 1000) in
        (case rotated_point U v (camera_point U g x y depth) of (rx, ry, rz) \<Rightarrow>
           if fle rz c0_1f then None
           else
             let cx = fdiv U (to_fl U (width v)) (Fin 2);
                 cy = fdiv U (to_fl U (height v)) (Fin 2);
                 px = to_int U (fadd U cx (fmul U (fdiv U rx rz) (zoom v)));
                 py = to_int U (fadd U cy (fmul U (fdiv U ry rz) (zoom v)))
             in if 0 \<le> px \<and> px < width v \<and> 0 \<le> py \<and> py < height v then
                  let normalizedDepth = std_min (Fin 1) (fdiv U depth (Fin 4));
                      color = (word_of_int (to_int U (fmul U normalizedDepth (Fin 255))),
                               word_of_int (to_int U (fmul U (fsub U (Fin 1) normalizedDepth) (Fin 200))),
                               word_of_int (to_int U (fmul U (fsub U (Fin 1) normalizedDepth) (Fin 100))))
                  in Some (py, px, color)
                else None))"

text \<open>
  The rendered canvas, by row and column. \<^verbatim>\<open>project\<close> clears it to \<^verbatim>\<open>(20, 20, 30)\<close> and
  lets every third sample of every third row write its pixel, later writes over earlier ones.
\<close>

type_synonym canvas = "int \<times> int \<Rightarrow> colour"

definition background :: canvas where
  "background = (\<lambda>p. (20, 20, 30))"

definition write_pixel :: "canvas \<Rightarrow> (int \<times> int \<times> colour) option \<Rightarrow> canvas" where
  "write_pixel display w =
     (case w of None \<Rightarrow> display | Some (py, px, color) \<Rightarrow> display((py, px) := color))"

definition project :: "fpu \<Rightarrow> PointCloudViewer \<Rightarrow> depth_grid \<Rightarrow> canvas" where
  "project U v g =
     foldl (\<lambda>display (x, y). write_pixel display (project_sample U v g x y))
       background (scan_order 3 (depth_width g) (depth_height g))"

text \<open>The depth in metres and the moved-back \<^verbatim>\<open>rz\<close> that \<^verbatim>\<open>project\<close> computes for a sample.\<close>

definition sample_depth :: "fpu \<Rightarrow> depth_grid \<Rightarrow> nat \<Rightarrow> nat \<Rightarrow> fl" where
  "sample_depth U g x y = fdiv U (to_fl U (uint (depth_at g x y))) (Fin 1000)"

definition sample_rz :: "fpu \<Rightarrow> PointCloudViewer \<Rightarrow> depth_grid \<Rightarrow> nat \<Rightarrow> nat \<Rightarrow> fl" where
  "sample_rz U v g x y =
     (case rotated_point U v (camera_point U g x y (sample_depth U g x y)) of (rx, ry, rz) \<Rightarrow> rz)"

section \<open>Map2D: the top-down map\<close>

text \<open>
  \<^verbatim>\<open>submarine_multistream.cpp\<close>, class \<^verbatim>\<open>Map2D\<close>: a 640 by 480 image of three bytes per
  pixel. \<^verbatim>\<open>fov\<close> is \<^verbatim>\<open>60.0f * M_PI / 180.0f\<close> stored in a \<^verbatim>\<open>float\<close>.
\<close>

definition Map2D_width :: int where
  "Map2D_width = 640"

definition Map2D_height :: int where
  "Map2D_height = 480"

definition max_range :: fl where
  "max_range = Fin 4"

definition fov :: fl where
  "fov = Fin (4392265 / 4194304)"


definition set3 :: "byte list \<Rightarrow> nat \<Rightarrow> byte \<Rightarrow> byte \<Rightarrow> byte \<Rightarrow> byte list" where
  "set3 img idx a b c = img[idx := a, idx + 1 := b, idx + 2 := c]"

text \<open>The depth in metres of a sample, \<^verbatim>\<open>(depth_val * scale) / 1000.0f\<close>.\<close>

definition depth_m_of :: "fpu \<Rightarrow> fl \<Rightarrow> u16 \<Rightarrow> fl" where
  "depth_m_of U scale depth_val = fdiv U (fmul U (to_fl U (uint depth_val)) scale) (Fin 1000)"

text \<open>
  The body of the projection loop of \<^verbatim>\<open>Map2D::update\<close> for the sample at column \<open>x\<close> of
  row \<open>y\<close>. First its three computations on an admitted depth: the map column
  \<^verbatim>\<open>map_x\<close>, the map row \<^verbatim>\<open>map_y\<close> and the three bytes of the colour. Then the body: the
  index written in \<^verbatim>\<open>map_image\<close> and the three bytes, if the sample is drawn.
\<close>

definition Map2D_map_x :: "fpu \<Rightarrow> depth_grid \<Rightarrow> nat \<Rightarrow> fl \<Rightarrow> int" where
  "Map2D_map_x U g x depth_m =
     (let W = to_fl U (int (depth_width g));
          angle = fmul U (fdiv U (fsub U (to_fl U (int x)) (fdiv U W (Fin 2))) W) fov;
          x_pos = fmul U depth_m (ftan U angle)
      in Map2D_width div 2
         + to_int U (fdiv U (fmul U x_pos (to_fl U Map2D_width)) (fmul U max_range (Fin 2))))"

definition Map2D_map_y :: "fpu \<Rightarrow> fl \<Rightarrow> int" where
  "Map2D_map_y U depth_m = to_int U (fdiv U (fmul U depth_m (to_fl U Map2D_height)) max_range)"

definition Map2D_colour :: "fpu \<Rightarrow> fl \<Rightarrow> colour" where
  "Map2D_colour U depth_m =
     (let intensity = fsub U (Fin 1) (fdiv U depth_m max_range)
      in (word_of_int (to_int U (fmul U intensity (Fin 200))),
          0,
          word_of_int (to_int U (fmul U (fsub U (Fin 1) intensity) (Fin 100)))))"

definition Map2D_sample :: "fpu \<Rightarrow> depth_grid \<Rightarrow> nat \<Rightarrow> nat \<Rightarrow> (nat \<times> colour) option" where
  "Map2D_sample U g x y =
     (let depth_val = depth_at g x y in
      if depth_val = 0 then None
      else
        let depth_m = depth_m_of U (value_scale g) depth_val in
        if fless max_range depth_m \<or> fless depth_m c0_2f then None
        else
          let map_x = Map2D_map_x U g x depth_m;
              map_y = Map2D_map_y U depth_m
          in if 0 \<le> map_x \<and> map_x < Map2D_width \<and> 0 \<le> map_y \<and> map_y < Map2D_height then
               let idx = (map_y * Map2D_width + map_x) * 3
               in Some (nat idx, Map2D_colour U depth_m)
             else None)"


text \<open>
  \<^verbatim>\<open>Map2D::update\<close>: clear to white, grid lines every 50 pixels, the centre line, the
  projected samples of every fourth column of every fourth row, the robot icon.
\<close>

definition draw_sample :: "byte list \<Rightarrow> (nat \<times> colour) option \<Rightarrow> byte list" where
  "draw_sample img w =
     (case w of None \<Rightarrow> img | Some (idx, r, gr, b) \<Rightarrow> set3 img idx r gr b)"




definition Map2D_project :: "fpu \<Rightarrow> depth_grid \<Rightarrow> byte list \<Rightarrow> byte list" where
  "Map2D_project U g img =
     foldl (\<lambda>im (x, y). draw_sample im (Map2D_sample U g x y)) img
       (scan_order 4 (depth_width g) (depth_height g))"


section \<open>Map3D: the accumulating point cloud\<close>

text \<open>
  \<^verbatim>\<open>submarine_3d_viz.cpp\<close>, class \<^verbatim>\<open>Map3D\<close>: the two accumulation buffers, the cap and the
  accumulation switch. The viewer window it feeds is outside the model.
\<close>

type_synonym point = "fl \<times> fl \<times> fl"

record Map3D =
  accumulatedPoints :: "point list"
  accumulatedColors :: "colour list"
  maxPoints :: nat
  accumulate :: bool

definition Map3D_new :: Map3D where
  "Map3D_new = \<lparr>accumulatedPoints = [], accumulatedColors = [], maxPoints = 100000, accumulate = True\<rparr>"

text \<open>A colour frame (\<^verbatim>\<open>ob::ColorFrame\<close>): width, height and RGB bytes.\<close>

record color_frame =
  color_width :: nat
  color_height :: nat
  color_data :: "byte list"

text \<open>
  The body of the conversion loop of \<^verbatim>\<open>Map3D::update\<close>: the point and the colour pushed for
  the sample at \<open>(x, y)\<close>, if any. The intrinsics are \<^verbatim>\<open>fx = fy = 525\<close>, \<^verbatim>\<open>cx = 320\<close>,
  \<^verbatim>\<open>cy = 240\<close>.
\<close>

definition Map3D_sample ::
  "fpu \<Rightarrow> depth_grid \<Rightarrow> color_frame option \<Rightarrow> nat \<Rightarrow> nat \<Rightarrow> (point \<times> colour) option" where
  "Map3D_sample U g colorFrame x y =
     (let depth_val = depth_at g x y in
      if depth_val = 0 then None
      else
        let depth_m = depth_m_of U (value_scale g) depth_val in
        if fless max_range depth_m \<or> fless depth_m c0_3f then None
        else
          let px = fdiv U (fmul U (fsub U (to_fl U (int x)) (Fin 320)) depth_m) (Fin 525);
              py = fdiv U (fmul U (fsub U (to_fl U (int y)) (Fin 240)) depth_m) (Fin 525);
              pz = depth_m;
              color =
                (case colorFrame of
                   Some cf \<Rightarrow>
                     let color_x = x * color_width cf div depth_width g;
                         color_y = y * color_height cf div depth_height g;
                         idx = (color_y * color_width cf + color_x) * 3
                     in (color_data cf ! (idx + 2), color_data cf ! (idx + 1), color_data cf ! idx)
                 | None \<Rightarrow>
                     let intensity = fsub U (Fin 1) (fdiv U depth_m max_range)
                     in (word_of_int (to_int U (fmul U intensity (Fin 255))),
                         word_of_int (to_int U (fmul U intensity (Fin 128))),
                         word_of_int (to_int U (fmul U (fsub U (Fin 1) intensity) (Fin 255)))))
          in Some ((px, py, pz), color))"

text \<open>
  The two \<^verbatim>\<open>push_back\<close> calls at the end of the loop body, and the loop over every second
  sample of every second row, building \<^verbatim>\<open>newPoints\<close> and \<^verbatim>\<open>newColors\<close>.
\<close>

definition push_sample ::
  "point list \<times> colour list \<Rightarrow> (point \<times> colour) option \<Rightarrow> point list \<times> colour list" where
  "push_sample acc s =
     (case s of None \<Rightarrow> acc | Some (p, c) \<Rightarrow> (fst acc @ [p], snd acc @ [c]))"

definition Map3D_convert ::
  "fpu \<Rightarrow> depth_grid \<Rightarrow> color_frame option \<Rightarrow> point list \<times> colour list" where
  "Map3D_convert U g colorFrame =
     foldl (\<lambda>acc (x, y). push_sample acc (Map3D_sample U g colorFrame x y)) ([], [])
       (scan_order 2 (depth_width g) (depth_height g))"

text \<open>
  The accumulation step of \<^verbatim>\<open>Map3D::update\<close> on the new points and colours: append both,
  and when the points exceed the cap erase the first \<^verbatim>\<open>excess\<close> elements of each buffer.
\<close>

definition Map3D_accumulate :: "Map3D \<Rightarrow> point list \<Rightarrow> colour list \<Rightarrow> Map3D" where
  "Map3D_accumulate m newPoints newColors =
     (if accumulate m \<and> newPoints \<noteq> [] then
        let m1 = m\<lparr>accumulatedPoints := accumulatedPoints m @ newPoints,
                   accumulatedColors := accumulatedColors m @ newColors\<rparr>
        in if length (accumulatedPoints m1) > maxPoints m1 then
             let excess = length (accumulatedPoints m1) - maxPoints m1
             in m1\<lparr>accumulatedPoints := drop excess (accumulatedPoints m1),
                    accumulatedColors := drop excess (accumulatedColors m1)\<rparr>
           else m1
      else m)"

definition Map3D_update :: "fpu \<Rightarrow> Map3D \<Rightarrow> depth_grid \<Rightarrow> color_frame option \<Rightarrow> Map3D" where
  "Map3D_update U m g colorFrame =
     (case Map3D_convert U g colorFrame of
        (newPoints, newColors) \<Rightarrow> Map3D_accumulate m newPoints newColors)"

definition Map3D_clear :: "Map3D \<Rightarrow> Map3D" where
  "Map3D_clear m = m\<lparr>accumulatedPoints := [], accumulatedColors := []\<rparr>"

definition toggleAccumulation :: "Map3D \<Rightarrow> Map3D" where
  "toggleAccumulation m =
     (let m1 = m\<lparr>accumulate := \<not> accumulate m\<rparr>
      in if \<not> accumulate m1 then Map3D_clear m1 else m1)"

datatype map3d_call = Update3D depth_grid "color_frame option" | Clear3D | Toggle3D

fun map3d_step :: "fpu \<Rightarrow> Map3D \<Rightarrow> map3d_call \<Rightarrow> Map3D" where
  "map3d_step U m (Update3D g cf) = Map3D_update U m g cf"
| "map3d_step U m Clear3D = Map3D_clear m"
| "map3d_step U m Toggle3D = toggleAccumulation m"

text \<open>The invariant of the accumulation buffers.\<close>

definition map3d_inv :: "Map3D \<Rightarrow> bool" where
  "map3d_inv m = (length (accumulatedPoints m) = length (accumulatedColors m)
     \<and> length (accumulatedPoints m) \<le> maxPoints m)"


section \<open>Properties of the cache\<close>

lemma map_find_assign_same: "map_find k (map_assign k v m) = Some v"
  by (induction m) auto

lemma map_find_assign_other: "k \<noteq> k' \<Longrightarrow> map_find k (map_assign k' v m) = map_find k m"
  by (induction m) auto

lemma set_keys_assign: "fst ` set (map_assign k v m) = insert k (fst ` set m)"
  by (induction m) (force split: if_splits)+

lemma sorted_keys_assign:
  "sorted (map fst m) \<Longrightarrow> distinct (map fst m) \<Longrightarrow>
   sorted (map fst (map_assign k v m)) \<and> distinct (map fst (map_assign k v m))"
proof (induction m)
  case Nil
  then show ?case by simp
next
  case (Cons e m)
  obtain k' v' where e: "e = (k', v')" by (cases e)
  from Cons.prems have tl: "sorted (map fst m)" "distinct (map fst m)"
    and hd: "\<forall>x \<in> fst ` set m. k' \<le> x" "k' \<notin> fst ` set m"
    by (auto simp: e)
  show ?case
  proof (cases "k = k'")
    case True
    with Cons.prems show ?thesis by (simp add: e)
  next
    case False
    show ?thesis
    proof (cases "k < k'")
      case True
      with Cons.prems False show ?thesis by (auto simp: e)
    next
      case ge: False
      from Cons.IH [OF tl] have ih: "sorted (map fst (map_assign k v m))"
        "distinct (map fst (map_assign k v m))" by simp_all
      have ks: "set (map fst (map_assign k v m)) = insert k (fst ` set m)"
        using set_keys_assign [of k v m] by simp
      from False ge hd ih ks show ?thesis by (auto simp: e)
    qed
  qed
qed

lemma fb_step_keys:
  "sorted (map fst fb) \<and> distinct (map fst fb) \<Longrightarrow>
   sorted (map fst (fb_step fb c)) \<and> distinct (map fst (fb_step fb c))"
  by (cases c) (simp_all add: FrameBuffer_update_def FrameBuffer_updateRaw_def sorted_keys_assign)

lemma foldl_fb_step_keys:
  "sorted (map fst fb) \<and> distinct (map fst fb) \<Longrightarrow>
   sorted (map fst (foldl fb_step fb calls)) \<and> distinct (map fst (foldl fb_step fb calls))"
proof (induction calls arbitrary: fb)
  case Nil
  then show ?case by simp
next
  case (Cons c calls)
  from fb_step_keys [OF Cons.prems] have "sorted (map fst (fb_step fb c)) \<and> distinct (map fst (fb_step fb c))" .
  from Cons.IH [OF this] show ?case by simp
qed

lemma fb_run_keys: "sorted (map fst (fb_run calls)) \<and> distinct (map fst (fb_run calls))"
  unfolding fb_run_def by (rule foldl_fb_step_keys) simp

lemma entries_of_distinct:
  "distinct (map fst fb) \<Longrightarrow> entries_of k fb \<le> 1"
  unfolding entries_of_def
proof (induction fb)
  case Nil
  then show ?case by simp
next
  case (Cons e fb)
  then have ih: "length (filter (\<lambda>e. fst e = k) fb) \<le> 1" by simp
  show ?case
  proof (cases "fst e = k")
    case True
    with Cons.prems have "k \<notin> fst ` set fb" by auto
    then have "filter (\<lambda>e. fst e = k) fb = []"
      by (auto simp: filter_empty_conv)
    with True show ?thesis by simp
  next
    case False
    with ih show ?thesis by simp
  qed
qed

lemma age_ms_same: "age_ms now now = 0"
  by (simp add: age_ms_def)

lemma age_ms_fresh_iff: "age_ms now ts < 2000 \<longleftrightarrow> now - ts < 2000000000"
  unfolding age_ms_def by (cases "ts \<le> now") (simp_all, linarith+)

lemma entries_of_assign_pos: "1 \<le> entries_of k (map_assign k v m)"
proof -
  have "k \<in> fst ` set (map_assign k v m)"
    by (simp add: set_keys_assign)
  then obtain e where "e \<in> set (map_assign k v m)" "fst e = k" by auto
  then have "filter (\<lambda>e. fst e = k) (map_assign k v m) \<noteq> []"
    by (auto simp: filter_empty_conv)
  then show ?thesis
    unfolding entries_of_def by (cases "filter (\<lambda>e. fst e = k) (map_assign k v m)") simp_all
qed

lemma entries_of_update_run:
  "entries_of k (FrameBuffer_update (fb_run calls) k v now) = 1"
proof -
  have "distinct (map fst (fb_step (fb_run calls) (Update k v now)))"
    using fb_step_keys [OF fb_run_keys] by blast
  then have "entries_of k (FrameBuffer_update (fb_run calls) k v now) \<le> 1"
    using entries_of_distinct by simp
  moreover have "1 \<le> entries_of k (FrameBuffer_update (fb_run calls) k v now)"
    unfolding FrameBuffer_update_def by (rule entries_of_assign_pos)
  ultimately show ?thesis by simp
qed

text \<open>
  C4. Reading a frame type at the instant it was stored returns the stored image. Reading it
  later returns the stored image while its age, in whole milliseconds, is below the timeout of
  2000 ms (that is, while less than two seconds of clock time have passed), and the empty
  image \<^verbatim>\<open>cv::Mat()\<close> from then on. In general \<^verbatim>\<open>get\<close> returns the image of the entry
  of that type when there is one and it is younger than 2000 ms, and the empty image in every
  other case.
\<close>

theorem FrameBuffer_get_fresh_or_absent:
  "FrameBuffer_get (FrameBuffer_update fb t v now) t now = v
   \<and> FrameBuffer_get (FrameBuffer_update fb t v t0) t now
       = (if age_ms now t0 < 2000 then v else Mat)
   \<and> FrameBuffer_get fb t now
       = (case map_find t fb of
            None \<Rightarrow> Mat
          | Some e \<Rightarrow> if age_ms now (timestamp e) < 2000 then frame e else Mat)
   \<and> (age_ms now t0 < 2000) = (now - t0 < 2000000000)"
proof -
  have put_get: "FrameBuffer_get (FrameBuffer_update fb t v t0) t now
       = (if age_ms now t0 < 2000 then v else Mat)" for t0
    by (simp add: FrameBuffer_get_def FrameBuffer_update_def map_find_assign_same timeout_ms_def)
  have same: "FrameBuffer_get (FrameBuffer_update fb t v now) t now = v"
    by (simp add: put_get age_ms_same)
  have gen: "FrameBuffer_get fb t now
       = (case map_find t fb of
            None \<Rightarrow> Mat
          | Some e \<Rightarrow> if age_ms now (timestamp e) < 2000 then frame e else Mat)"
    by (simp add: FrameBuffer_get_def timeout_ms_def split: option.splits)
  from same put_get gen age_ms_fresh_iff show ?thesis by blast
qed

text \<open>
  A frame stored at clock reading 0 is returned 1999 ms later and is absent 2000 ms later.
\<close>

theorem FrameBuffer_get_fresh_or_absent_witness:
  "FrameBuffer_get (FrameBuffer_update [] 1 \<lparr>rows = 1, cols = 1, pixels = [7]\<rparr> 0) 1 1999999999
     = \<lparr>rows = 1, cols = 1, pixels = [7]\<rparr>
   \<and> FrameBuffer_get (FrameBuffer_update [] 1 \<lparr>rows = 1, cols = 1, pixels = [7]\<rparr> 0) 1 2000000000
     = Mat"
  using FrameBuffer_get_fresh_or_absent [where fb = "[]" and t = 1
      and v = "\<lparr>rows = 1, cols = 1, pixels = [7]\<rparr>" and now = 1999999999 and ?t0.0 = 0]
    FrameBuffer_get_fresh_or_absent [where fb = "[]" and t = 1
      and v = "\<lparr>rows = 1, cols = 1, pixels = [7]\<rparr>" and now = 2000000000 and ?t0.0 = 0]
  by (simp add: age_ms_def)

text \<open>
  C7. The cache holds at most one entry per frame type, whatever updates it has received, and
  exactly one for a type that has just been stored. Storing \<open>A\<close> and then \<open>B\<close> under one type
  leaves \<open>B\<close> as the entry of that type: a later \<^verbatim>\<open>get\<close> returns \<open>B\<close> while \<open>B\<close> is
  younger than the timeout and the empty image afterwards, and \<^verbatim>\<open>getRaw\<close> does the same
  for raw payloads stored with \<^verbatim>\<open>updateRaw\<close>.
\<close>

theorem FrameBuffer_last_value_wins:
  "entries_of t (fb_run calls) \<le> 1
   \<and> entries_of t (FrameBuffer_update (fb_run calls) t B t2) = 1
   \<and> map_find t (FrameBuffer_update (FrameBuffer_update fb t A t1) t B t2)
       = Some \<lparr>frame = B, raw_data = [], timestamp = t2\<rparr>
   \<and> FrameBuffer_get (FrameBuffer_update (FrameBuffer_update fb t A t1) t B t2) t now
       = (if age_ms now t2 < timeout_ms then B else Mat)
   \<and> FrameBuffer_getRaw (FrameBuffer_updateRaw (FrameBuffer_updateRaw fb t RA t1) t RB t2) t now
       = (if age_ms now t2 < timeout_ms then RB else [])"
proof -
  have one: "entries_of t (fb_run calls) \<le> 1"
    using fb_run_keys entries_of_distinct by blast
  have found: "map_find t (FrameBuffer_update (FrameBuffer_update fb t A t1) t B t2)
       = Some \<lparr>frame = B, raw_data = [], timestamp = t2\<rparr>"
    by (simp add: FrameBuffer_update_def map_find_assign_same)
  have got: "FrameBuffer_get (FrameBuffer_update (FrameBuffer_update fb t A t1) t B t2) t now
       = (if age_ms now t2 < timeout_ms then B else Mat)"
    by (simp add: FrameBuffer_get_def found)
  have raw: "FrameBuffer_getRaw (FrameBuffer_updateRaw (FrameBuffer_updateRaw fb t RA t1) t RB t2) t now
       = (if age_ms now t2 < timeout_ms then RB else [])"
    by (simp add: FrameBuffer_getRaw_def FrameBuffer_updateRaw_def map_find_assign_same)
  from one entries_of_update_run found got raw show ?thesis by blast
qed

text \<open>
  Two depth frames stored one after the other, read 10 ms after the second: the second is
  returned, and the buffer has the one entry.
\<close>

theorem FrameBuffer_last_value_wins_witness:
  "FrameBuffer_get
     (FrameBuffer_update
        (FrameBuffer_update [] 1 \<lparr>rows = 1, cols = 1, pixels = [10]\<rparr> 0)
        1 \<lparr>rows = 1, cols = 1, pixels = [11]\<rparr> 5000000) 1 15000000
     = \<lparr>rows = 1, cols = 1, pixels = [11]\<rparr>
   \<and> entries_of 1 (FrameBuffer_update (fb_run [Update 1 \<lparr>rows = 1, cols = 1, pixels = [10]\<rparr> 0])
        1 \<lparr>rows = 1, cols = 1, pixels = [11]\<rparr> 5000000) = 1"
  using FrameBuffer_last_value_wins [where t = 1
      and calls = "[Update 1 \<lparr>rows = 1, cols = 1, pixels = [10]\<rparr> 0]"
      and fb = "[]" and A = "\<lparr>rows = 1, cols = 1, pixels = [10]\<rparr>" and ?t1.0 = 0
      and B = "\<lparr>rows = 1, cols = 1, pixels = [11]\<rparr>" and ?t2.0 = 5000000 and now = 15000000]
  by (simp add: age_ms_def timeout_ms_def)

section \<open>Properties of the datagram paths\<close>

lemma load_i32_store_i32: "load_i32 (store_i32 w @ r) 0 = w"
proof -
  have cat4: "(ucast (ucast w :: byte) :: i32) OR push_bit 8 (ucast (ucast (drop_bit 8 w) :: byte))
      OR push_bit 16 (ucast (ucast (drop_bit 16 w) :: byte))
      OR push_bit 24 (ucast (ucast (drop_bit 24 w) :: byte)) = w"
  proof (rule bit_eqI)
    fix n
    assume n: "possible_bit TYPE(i32) n"
    have c: "n < 8 \<or> (8 \<le> n \<and> n < 16) \<or> (16 \<le> n \<and> n < 24) \<or> 24 \<le> n" by arith
    from n c show "bit ((ucast (ucast w :: byte) :: i32) OR push_bit 8 (ucast (ucast (drop_bit 8 w) :: byte))
        OR push_bit 16 (ucast (ucast (drop_bit 16 w) :: byte))
        OR push_bit 24 (ucast (ucast (drop_bit 24 w) :: byte))) n = bit w n"
      by (auto simp add: bit_simps)
  qed
  then show ?thesis by (simp add: load_i32_def store_i32_def)
qed

lemma length_store_i32: "length (store_i32 w) = 4"
  by (simp add: store_i32_def)

lemma load_i32_append_right: "load_i32 (xs @ ys) (length xs + k) = load_i32 ys k"
  by (simp add: load_i32_def nth_append add.assoc)

lemma load_i32_prefix: "k + 4 \<le> n \<Longrightarrow> n \<le> length d \<Longrightarrow> load_i32 (take n d @ r) k = load_i32 d k"
  by (simp add: load_i32_def nth_append)

lemma slice_received: "n \<le> length d \<Longrightarrow> slice_of (take n d @ r) h n = drop h (take n d)"
  by (simp add: slice_of_def)

lemma take_min_length: "take (min (length d) m) d = take m d"
  by (simp add: min_def)

lemma depth3d_receivePacket_closed_form:
  "depth3d_receivePacket stale (Dgram d) =
     (if length d < 12 then Rejected
      else if sint (load_i32 d 8) \<le> 0 \<or> 5000000 < sint (load_i32 d 8) then Rejected
      else Accepted (load_i32 d 0, load_i32 d 4, drop 12 (take 65536 d)))"
proof (cases "length d < 12")
  case True
  then show ?thesis by (simp add: depth3d_receivePacket_def recvfrom_def Let_def)
next
  case False
  define n where "n = min (length d) 65536"
  from False have n: "12 \<le> n" "n \<le> length d" by (simp_all add: n_def)
  have rx: "recvfrom (Dgram d) stale 65536 = (int n, take n d @ drop n stale)"
    by (simp add: recvfrom_def n_def Let_def)
  have ld: "load_i32 (take n d @ drop n stale) 0 = load_i32 d 0"
    "load_i32 (take n d @ drop n stale) 4 = load_i32 d 4"
    "load_i32 (take n d @ drop n stale) 8 = load_i32 d 8"
    using n by (simp_all add: load_i32_prefix)
  have tk: "take n d = take 65536 d"
    unfolding n_def by (rule take_min_length)
  have "slice_of (take n d @ drop n stale) 12 n = drop 12 (take n d)"
    using n(2) by (rule slice_received)
  with tk have sl: "slice_of (take n d @ drop n stale) 12 n = drop 12 (take 65536 d)"
    by simp
  from False n show ?thesis
    by (simp add: depth3d_receivePacket_def rx ld sl Let_def)
qed


lemma receiver_receiveFrame_closed_form:
  "receiver_receiveFrame imdecode stale (Dgram d) =
     (if length d < 12 then Rejected
      else if sint (load_i32 d 4) < 0 \<or> 3 < sint (load_i32 d 4) then Rejected
      else
        let decoded = imdecode (drop 12 (take 65536 d))
        in if mat_empty decoded then Rejected
           else if cols decoded \<le> 0 \<or> rows decoded \<le> 0
                   \<or> 2000 < cols decoded \<or> 2000 < rows decoded then Rejected
           else Accepted (decoded, load_i32 d 4))"
proof (cases "length d < 12")
  case True
  then show ?thesis by (simp add: receiver_receiveFrame_def recvfrom_def Let_def)
next
  case False
  define n where "n = min (length d) 65536"
  from False have n: "12 \<le> n" "n \<le> length d" by (simp_all add: n_def)
  have rx: "recvfrom (Dgram d) stale 65536 = (int n, take n d @ drop n stale)"
    by (simp add: recvfrom_def n_def Let_def)
  have ld: "load_i32 (take n d @ drop n stale) 4 = load_i32 d 4"
    using n by (simp add: load_i32_prefix)
  have tk: "take n d = take 65536 d"
    unfolding n_def by (rule take_min_length)
  have "slice_of (take n d @ drop n stale) 12 n = drop 12 (take n d)"
    using n(2) by (rule slice_received)
  with tk have sl: "slice_of (take n d @ drop n stale) 12 n = drop 12 (take 65536 d)"
    by simp
  from False n show ?thesis
    by (simp add: receiver_receiveFrame_def rx ld sl Let_def)
qed

lemma color_receiveFrame_closed_form:
  "color_receiveFrame imdecode stale (Dgram d) =
     (if length d < 8 then Rejected
      else if sint (load_i32 d 4) \<le> 0 \<or> 2000000 < sint (load_i32 d 4) then Rejected
      else
        let decoded = imdecode (drop 8 (take 65536 d))
        in if mat_empty decoded then Rejected
           else Accepted (decoded, load_i32 d 0))"
proof (cases "length d < 8")
  case True
  then show ?thesis by (simp add: color_receiveFrame_def recvfrom_def Let_def)
next
  case False
  define n where "n = min (length d) 65536"
  from False have n: "8 \<le> n" "n \<le> length d" by (simp_all add: n_def)
  have rx: "recvfrom (Dgram d) stale 65536 = (int n, take n d @ drop n stale)"
    by (simp add: recvfrom_def n_def Let_def)
  have ld: "load_i32 (take n d @ drop n stale) 0 = load_i32 d 0"
    "load_i32 (take n d @ drop n stale) 4 = load_i32 d 4"
    using n by (simp_all add: load_i32_prefix)
  have tk: "take n d = take 65536 d"
    unfolding n_def by (rule take_min_length)
  have "slice_of (take n d @ drop n stale) 8 n = drop 8 (take n d)"
    using n(2) by (rule slice_received)
  with tk have sl: "slice_of (take n d @ drop n stale) 8 n = drop 8 (take 65536 d)"
    by simp
  from False n show ?thesis
    by (simp add: color_receiveFrame_def rx ld sl Let_def)
qed

lemma no_datagram_rejected:
  "depth3d_receivePacket stale NoDgram = Rejected"
  "receiver_receiveFrame imdecode stale NoDgram = Rejected"
  "color_receiveFrame imdecode stale NoDgram = Rejected"
  by (simp_all add: depth3d_receivePacket_def receiver_receiveFrame_def color_receiveFrame_def
      recvfrom_def)

lemma sint_length_i32: "n < 2 ^ 31 \<Longrightarrow> sint (word_of_nat n :: i32) = int n"
proof -
  assume n: "n < 2 ^ 31"
  have "sint (word_of_nat n :: i32) = signed_take_bit 31 (int n)"
    by (simp add: signed_of_nat)
  also have "\<dots> = int n"
    using n by (intro signed_take_bit_int_eq_self) simp_all
  finally show ?thesis .
qed


text \<open>
  C2. A non-empty payload that fits the receiver's 65536-byte buffer behind the 12-byte header
  (at most 65524 bytes; a UDP datagram carries no more), sent by \<^verbatim>\<open>sendRawData\<close> with any
  frame id and frame type and delivered whole, is accepted by \<^verbatim>\<open>receivePacket\<close> with the
  same frame id, the same frame type and the same payload bytes.
\<close>

theorem sendRawData_receivePacket_roundtrip:
  assumes nonempty: "dat \<noteq> []" and fits: "length dat \<le> 65524"
  shows "\<exists>pkt. sendRawData dat frame_id frame_type = Some pkt
           \<and> length pkt = 12 + length dat
           \<and> depth3d_receivePacket stale (Dgram pkt) = Accepted (frame_id, frame_type, dat)"
proof -
  define pkt where "pkt = store_i32 frame_id @ store_i32 frame_type
                   @ store_i32 (word_of_nat (length dat)) @ dat"
  have s: "sendRawData dat frame_id frame_type = Some pkt"
    using nonempty by (simp add: sendRawData_def pkt_def)
  have len: "length pkt = 12 + length dat"
    by (simp add: pkt_def length_store_i32)
  have l0: "load_i32 pkt 0 = frame_id"
    unfolding pkt_def by (rule load_i32_store_i32)
  have l4: "load_i32 pkt 4 = frame_type"
    using load_i32_append_right [of "store_i32 frame_id" _ 0]
    by (simp add: pkt_def length_store_i32 load_i32_store_i32)
  have l8: "load_i32 pkt 8 = word_of_nat (length dat)"
    using load_i32_append_right [of "store_i32 frame_id @ store_i32 frame_type" _ 0]
    by (simp add: pkt_def length_store_i32 load_i32_store_i32)
  have sz: "sint (word_of_nat (length dat) :: i32) = int (length dat)"
    using fits by (intro sint_length_i32) simp
  have tk: "take 65536 pkt = pkt"
    using fits len by simp
  have dr: "drop 12 pkt = dat"
    unfolding pkt_def by (simp add: store_i32_def)
  from nonempty have "0 < length dat" by simp
  with fits have "depth3d_receivePacket stale (Dgram pkt) = Accepted (frame_id, frame_type, dat)"
    by (simp add: depth3d_receivePacket_closed_form len l0 l4 l8 sz tk dr)
  with s len show ?thesis by blast
qed

text \<open>Frame 5 of type 3 (raw depth) with the payload 1, 2, 3.\<close>

theorem sendRawData_receivePacket_roundtrip_witness:
  "sendRawData [1, 2, 3] 5 3 = Some [5, 0, 0, 0, 3, 0, 0, 0, 3, 0, 0, 0, 1, 2, 3]
   \<and> depth3d_receivePacket (replicate 65536 0) (Dgram [5, 0, 0, 0, 3, 0, 0, 0, 3, 0, 0, 0, 1, 2, 3])
       = Accepted (5, 3, [1, 2, 3])"
  using sendRawData_receivePacket_roundtrip [where dat = "[1, 2, 3]" and frame_id = 5
      and frame_type = 3 and stale = "replicate 65536 0"]
  by (simp add: sendRawData_def store_i32_def)

text \<open>
  C1, as the code has it. \<^verbatim>\<open>receivePacket\<close> rejects a datagram of fewer than 12 bytes and
  one whose declared size is not in 1..5000000, and checks neither the frame type nor the
  declared size against the bytes received; \<^verbatim>\<open>receiveFrame\<close> rejects a datagram of fewer
  than 12 bytes, a frame type outside 0..3 and a payload the codec cannot decode to an image
  of at most 2000 by 2000. In both the payload is the received bytes from offset 12 on, cut at
  the buffer size, whatever the declared size is and whatever the buffer held before: the
  results do not depend on \<open>stale\<close>.
\<close>

theorem datagram_decoders_closed_form:
  "depth3d_receivePacket stale (Dgram d) =
     (if length d < 12 then Rejected
      else if sint (load_i32 d 8) \<le> 0 \<or> 5000000 < sint (load_i32 d 8) then Rejected
      else Accepted (load_i32 d 0, load_i32 d 4, drop 12 (take 65536 d)))
   \<and> receiver_receiveFrame imdecode stale (Dgram d) =
     (if length d < 12 then Rejected
      else if sint (load_i32 d 4) < 0 \<or> 3 < sint (load_i32 d 4) then Rejected
      else
        let decoded = imdecode (drop 12 (take 65536 d))
        in if mat_empty decoded then Rejected
           else if cols decoded \<le> 0 \<or> rows decoded \<le> 0
                   \<or> 2000 < cols decoded \<or> 2000 < rows decoded then Rejected
           else Accepted (decoded, load_i32 d 4))
   \<and> depth3d_receivePacket stale NoDgram = Rejected
   \<and> receiver_receiveFrame imdecode stale NoDgram = Rejected"
  using depth3d_receivePacket_closed_form [of stale d]
    receiver_receiveFrame_closed_form [of imdecode stale d]
    no_datagram_rejected(1) [of stale] no_datagram_rejected(2) [of imdecode stale]
  by (intro conjI) assumption+

text \<open>
  An 11-byte datagram is rejected by both; a datagram of type 9 is rejected by
  \<^verbatim>\<open>receiveFrame\<close>; a well-formed one-byte frame of type 1 is accepted by both (the codec
  here turns any bytes into a one-row image).
\<close>

theorem datagram_decoders_closed_form_witness:
  "depth3d_receivePacket (replicate 65536 0) (Dgram (replicate 11 1)) = Rejected
   \<and> receiver_receiveFrame (\<lambda>bs. \<lparr>rows = 1, cols = int (length bs), pixels = bs\<rparr>)
        (replicate 65536 0) (Dgram (replicate 11 1)) = Rejected
   \<and> receiver_receiveFrame (\<lambda>bs. \<lparr>rows = 1, cols = int (length bs), pixels = bs\<rparr>)
        (replicate 65536 0) (Dgram (store_i32 7 @ store_i32 9 @ store_i32 1 @ [85])) = Rejected
   \<and> receiver_receiveFrame (\<lambda>bs. \<lparr>rows = 1, cols = int (length bs), pixels = bs\<rparr>)
        (replicate 65536 0) (Dgram (store_i32 7 @ store_i32 1 @ store_i32 1 @ [85]))
       = Accepted (\<lparr>rows = 1, cols = 1, pixels = [85]\<rparr>, 1)
   \<and> depth3d_receivePacket (replicate 65536 0) (Dgram (store_i32 7 @ store_i32 1 @ store_i32 1 @ [85]))
       = Accepted (7, 1, [85])"
  using datagram_decoders_closed_form [where stale = "replicate 65536 0" and d = "replicate 11 1"
      and imdecode = "\<lambda>bs. \<lparr>rows = 1, cols = int (length bs), pixels = bs\<rparr>"]
    datagram_decoders_closed_form [where stale = "replicate 65536 0"
      and d = "store_i32 7 @ store_i32 9 @ store_i32 1 @ [85]"
      and imdecode = "\<lambda>bs. \<lparr>rows = 1, cols = int (length bs), pixels = bs\<rparr>"]
    datagram_decoders_closed_form [where stale = "replicate 65536 0"
      and d = "store_i32 7 @ store_i32 1 @ store_i32 1 @ [85]"
      and imdecode = "\<lambda>bs. \<lparr>rows = 1, cols = int (length bs), pixels = bs\<rparr>"]
  by (simp add: store_i32_def load_i32_def mat_empty_def)

text \<open>
  Against C1 as the specification states it: a datagram that declares 500 payload bytes and
  carries 200 is accepted by \<^verbatim>\<open>receivePacket\<close> with its 200 bytes, and so is a datagram
  whose frame type, 99, is none of the receiver's three.
\<close>

theorem declared_500_carried_200_accepted:
  "depth3d_receivePacket (replicate 65536 0)
     (Dgram (store_i32 7 @ store_i32 1 @ store_i32 500 @ replicate 200 85))
     = Accepted (7, 1, replicate 200 85)
   \<and> depth3d_receivePacket (replicate 65536 0)
     (Dgram (store_i32 7 @ store_i32 99 @ store_i32 200 @ replicate 200 85))
     = Accepted (7, 99, replicate 200 85)"
  by (simp add: depth3d_receivePacket_closed_form store_i32_def load_i32_def)

text \<open>
  C10 fails on \<^verbatim>\<open>receivePacket\<close> of \<^verbatim>\<open>submarine_receiver_raw.cpp\<close>, which sizes the
  copy by the declared size. A 28-byte datagram declaring 100 payload bytes and carrying 20 is
  accepted with 100 bytes, the last 80 of them read from the buffer beyond the received data;
  a 9-byte datagram declaring 2000000 makes the copy run 8 bytes past the end of the
  2000000-byte buffer.
\<close>

theorem raw_receivePacket_reads_past_received:
  "raw_receivePacket (Dgram (store_i32 1 @ store_i32 100 @ replicate 20 170))
     = Accepted (1, replicate 20 170 @ replicate 80 0)
   \<and> raw_receivePacket (Dgram (store_i32 1 @ store_i32 2000000 @ [170])) = ReadOutOfBounds"
  by (simp add: raw_receivePacket_def recvfrom_def raw_maxSize_def store_i32_def load_i32_def
      slice_of_def Let_def)

section \<open>Properties of the stream paths\<close>

text \<open>
  The accumulation loop returns the next \<open>sz - got\<close> bytes of the channel, however the
  arrivals cut them, when that many arrive before a read returns zero or less; it fails
  otherwise.
\<close>

lemma recv_loop_content:
  "got \<le> sz \<Longrightarrow>
   (sz - got \<le> length (content ch) \<longrightarrow>
      fst (recv_loop ch sz got buf) = Some (buf @ take (sz - got) (content ch))
      \<and> content (snd (recv_loop ch sz got buf)) = drop (sz - got) (content ch))
   \<and> (length (content ch) < sz - got \<longrightarrow> fst (recv_loop ch sz got buf) = None)"
proof (induction ch sz got buf rule: recv_loop.induct)
  case (1 ch sz got buf)
  show ?case
  proof (cases "got < sz")
    case False
    with "1.prems" show ?thesis by (subst (1 2 3) recv_loop.simps) simp
  next
    case True
    note lt = True
    show ?thesis
    proof (cases ch)
      case Nil
      with lt show ?thesis by (subst (1 2 3) recv_loop.simps) simp
    next
      case (Cons a ch0)
      show ?thesis
      proof (cases a)
        case Shutdown
        with Cons lt show ?thesis by (subst (1 2 3) recv_loop.simps) simp
      next
        case Timeout
        with Cons lt show ?thesis by (subst (1 2 3) recv_loop.simps) simp
      next
        case (Bytes bs)
        show ?thesis
        proof (cases "bs = []")
          case True
          with Bytes Cons lt show ?thesis by (subst (1 2 3) recv_loop.simps) simp
        next
          case ne: False
          show ?thesis
          proof (cases "length bs \<le> sz - got")
            case True
            have r: "recv ch (sz - got) = (int (length bs), bs, ch0)"
              using Cons Bytes True by simp
            have pos: "\<not> int (length bs) \<le> 0" using ne by simp
            have le: "got + nat (int (length bs)) \<le> sz" using True lt by simp
            note ih = "1.IH" [OF lt r [symmetric] refl pos le]
            have step: "recv_loop ch sz got buf = recv_loop ch0 sz (got + length bs) (buf @ bs)"
              using lt r pos by (subst recv_loop.simps) simp
            have c: "content ch = bs @ content ch0" using Cons Bytes ne by simp
            from ih True show ?thesis
              unfolding step c by auto
          next
            case False
            then have big: "sz - got < length bs" by simp
            have r: "recv ch (sz - got) = (int (sz - got), take (sz - got) bs, Bytes (drop (sz - got) bs) # ch0)"
              using Cons Bytes big by simp
            have step: "recv_loop ch sz got buf = (Some (buf @ take (sz - got) bs), Bytes (drop (sz - got) bs) # ch0)"
              using lt r by (subst recv_loop.simps) (simp, subst recv_loop.simps, simp)
            have c: "content ch = bs @ content ch0" using Cons Bytes ne by simp
            from big show ?thesis
              unfolding step c by simp
          qed
        qed
      qed
    qed
  qed
qed


text \<open>
  \<^verbatim>\<open>TCPReceiver::receiveFrame\<close> on a stream that starts with a well-formed frame: the 12
  header bytes and then the declared number of payload bytes are put together across the
  arrivals, the codec is given exactly the payload, and the stream is left at the first byte
  after the frame.
\<close>

lemma TCPReceiver_receiveFrame_reassembles:
  assumes stream: "content ch = store_i32 frame_id @ store_i32 frame_type
                     @ store_i32 (word_of_nat (length payload)) @ payload @ rest"
    and ftype: "0 \<le> sint frame_type" "sint frame_type \<le> 3"
    and size: "payload \<noteq> []" "length payload \<le> 2000000"
  shows "fst (TCPReceiver_receiveFrame imdecode ch)
           = (if mat_empty (imdecode payload) then None else Some (imdecode payload, frame_type))
         \<and> content (snd (TCPReceiver_receiveFrame imdecode ch)) = rest"
proof -
  define hdr where "hdr = store_i32 frame_id @ store_i32 frame_type
                     @ store_i32 (word_of_nat (length payload))"
  have hl: "length hdr = 12" by (simp add: hdr_def store_i32_def)
  have c: "content ch = hdr @ payload @ rest" by (simp add: stream hdr_def)
  obtain h ch1 where r1: "recv_loop ch 12 0 [] = (h, ch1)" by (cases "recv_loop ch 12 0 []")
  have "12 - 0 \<le> length (content ch)" by (simp add: c hl)
  with recv_loop_content [of 0 12 ch "[]"] r1
  have h: "h = Some hdr" and c1: "content ch1 = payload @ rest"
    by (simp_all add: c hl)
  have l4: "load_i32 hdr 4 = frame_type"
    using load_i32_append_right [of "store_i32 frame_id" _ 0]
    by (simp add: hdr_def length_store_i32 load_i32_store_i32)
  have l8: "load_i32 hdr 8 = word_of_nat (length payload)"
    using load_i32_append_right [of "store_i32 frame_id @ store_i32 frame_type" _ 0]
      load_i32_store_i32 [of _ "[]"]
    by (simp add: hdr_def length_store_i32)
  have sz: "sint (word_of_nat (length payload) :: i32) = int (length payload)"
    using size(2) by (intro sint_length_i32) simp
  obtain b ch2 where r2: "recv_loop ch1 (length payload) 0 [] = (b, ch2)"
    by (cases "recv_loop ch1 (length payload) 0 []")
  have "length payload - 0 \<le> length (content ch1)" by (simp add: c1)
  with recv_loop_content [of 0 "length payload" ch1 "[]"] r2
  have b: "b = Some payload" and c2: "content ch2 = rest"
    by (simp_all add: c1)
  from size(1) have pos: "0 < length payload" by simp
  from ftype size(2) pos show ?thesis
    by (simp add: TCPReceiver_receiveFrame_def r1 h l4 l8 sz r2 b c2 Let_def)
qed

text \<open>
  A read that returns zero or less before the header or the declared payload is complete
  makes the call fail.
\<close>

lemma TCPReceiver_receiveFrame_header_short:
  "length (content ch) < 12 \<Longrightarrow> fst (TCPReceiver_receiveFrame imdecode ch) = None"
proof -
  assume short: "length (content ch) < 12"
  obtain h ch1 where r1: "recv_loop ch 12 0 [] = (h, ch1)" by (cases "recv_loop ch 12 0 []")
  from short recv_loop_content [of 0 12 ch "[]"] r1 have "h = None" by simp
  with r1 show ?thesis by (simp add: TCPReceiver_receiveFrame_def)
qed

lemma TCPReceiver_receiveFrame_payload_short:
  assumes stream: "content ch = store_i32 frame_id @ store_i32 frame_type
                     @ store_i32 (word_of_nat declared) @ partial"
    and size: "declared \<le> 2000000" "length partial < declared"
  shows "fst (TCPReceiver_receiveFrame imdecode ch) = None"
proof -
  define hdr where "hdr = store_i32 frame_id @ store_i32 frame_type
                     @ store_i32 (word_of_nat declared)"
  have hl: "length hdr = 12" by (simp add: hdr_def store_i32_def)
  have c: "content ch = hdr @ partial" by (simp add: stream hdr_def)
  obtain h ch1 where r1: "recv_loop ch 12 0 [] = (h, ch1)" by (cases "recv_loop ch 12 0 []")
  have "12 - 0 \<le> length (content ch)" by (simp add: c hl)
  with recv_loop_content [of 0 12 ch "[]"] r1
  have h: "h = Some hdr" and c1: "content ch1 = partial"
    by (simp_all add: c hl)
  have l8: "load_i32 hdr 8 = word_of_nat declared"
    using load_i32_append_right [of "store_i32 frame_id @ store_i32 frame_type" _ 0]
      load_i32_store_i32 [of _ "[]"]
    by (simp add: hdr_def length_store_i32)
  have sz: "sint (word_of_nat declared :: i32) = int declared"
    using size(1) by (intro sint_length_i32) simp
  obtain b ch2 where r2: "recv_loop ch1 declared 0 [] = (b, ch2)"
    by (cases "recv_loop ch1 declared 0 []")
  have "length (content ch1) < declared - 0" by (simp add: c1 size(2))
  with recv_loop_content [of 0 declared ch1 "[]"] r2
  have b: "b = None" by simp
  show ?thesis
    by (simp add: TCPReceiver_receiveFrame_def r1 h l8 sz r2 b Let_def)
qed

text \<open>
  Header \<^verbatim>\<open>{frame_id 5, frame_type 1, payload_size 100}\<close>, then the payload in arrivals of
  40, 40 and 20 bytes.
\<close>

lemma TCPReceiver_receiveFrame_40_40_20:
  "fst (TCPReceiver_receiveFrame imdecode
     [Bytes (store_i32 5 @ store_i32 1 @ store_i32 100),
      Bytes (replicate 40 1), Bytes (replicate 40 2), Bytes (replicate 20 3)])
   = (if mat_empty (imdecode (replicate 40 1 @ replicate 40 2 @ replicate 20 3)) then None
      else Some (imdecode (replicate 40 1 @ replicate 40 2 @ replicate 20 3), 1))"
  using TCPReceiver_receiveFrame_reassembles [where frame_id = 5 and frame_type = 1
      and payload = "replicate 40 1 @ replicate 40 2 @ replicate 20 3" and rest = "[]"
      and imdecode = imdecode
      and ch = "[Bytes (store_i32 5 @ store_i32 1 @ store_i32 100),
      Bytes (replicate 40 1), Bytes (replicate 40 2), Bytes (replicate 20 3)]"]
  by (simp add: store_i32_def)

text \<open>The same receiver with its header split after 3 bytes.\<close>

lemma TCPReceiver_receiveFrame_split_header:
  "fst (TCPReceiver_receiveFrame imdecode
     [Bytes [5, 0, 0], Bytes [0, 1, 0, 0, 0, 100, 0, 0, 0], Bytes (replicate 100 7)])
   = (if mat_empty (imdecode (replicate 100 7)) then None
      else Some (imdecode (replicate 100 7), 1))"
  using TCPReceiver_receiveFrame_reassembles [where frame_id = 5 and frame_type = 1
      and payload = "replicate 100 7" and rest = "[]"
      and imdecode = imdecode
      and ch = "[Bytes [5, 0, 0], Bytes [0, 1, 0, 0, 0, 100, 0, 0, 0], Bytes (replicate 100 7)]"]
  by (simp add: store_i32_def)

text \<open>
  C3 fails on \<^verbatim>\<open>SwitchableReceiver::receiveFrame\<close>, which reads its 5-byte header with a
  single \<^verbatim>\<open>recv\<close>. A frame of type 1 with 100 payload bytes whose header arrives as 3 bytes
  and then 2: the call returns false and stays connected; the next call consumes the other 2
  header bytes and returns false; the third takes the first 5 payload bytes for a header and
  returns false. The frame is never delivered.
\<close>

theorem SwitchableReceiver_receiveFrame_split_header:
  "SwitchableReceiver_receiveFrame imdecode
     \<lparr>connected = True, sock = [Bytes [1, 100, 0], Bytes [0, 0], Bytes (replicate 100 7)]\<rparr>
     = (None, \<lparr>connected = True, sock = [Bytes [0, 0], Bytes (replicate 100 7)]\<rparr>)
   \<and> SwitchableReceiver_receiveFrame imdecode
     \<lparr>connected = True, sock = [Bytes [0, 0], Bytes (replicate 100 7)]\<rparr>
     = (None, \<lparr>connected = True, sock = [Bytes (replicate 100 7)]\<rparr>)
   \<and> SwitchableReceiver_receiveFrame imdecode
     \<lparr>connected = True, sock = [Bytes (replicate 100 7)]\<rparr>
     = (None, \<lparr>connected = True, sock = [Bytes (replicate 95 7)]\<rparr>)"
  by (simp add: SwitchableReceiver_receiveFrame_def load_i32_def)

section \<open>Properties of the viewer state\<close>

lemma clamp_between:
  "a \<le> b \<Longrightarrow> fle (Fin a) (std_max (Fin a) (std_min (Fin b) x))
     \<and> fle (std_max (Fin a) (std_min (Fin b) x)) (Fin b)"
  by (cases x) (auto simp: std_max_def std_min_def)

lemma rotate_pitch_ok: "pitch_ok (PointCloudViewer_rotate U v dy dp)"
  using clamp_between [of "- (3 / 2)" "3 / 2"]
  by (simp add: pitch_ok_def PointCloudViewer_rotate_def Let_def)

lemma setZoom_zoom_ok: "zoom_ok (PointCloudViewer_setZoom v z)"
  using clamp_between [of 50 500]
  by (simp add: zoom_ok_def PointCloudViewer_setZoom_def)

lemma rotate_zoom: "zoom (PointCloudViewer_rotate U v dy dp) = zoom v"
  by (simp add: PointCloudViewer_rotate_def Let_def)

lemma setZoom_pitch: "pitch (PointCloudViewer_setZoom v z) = pitch v"
  by (simp add: PointCloudViewer_setZoom_def)

lemma viewer_step_ok:
  "pitch_ok v \<and> zoom_ok v \<Longrightarrow> pitch_ok (viewer_step U v c) \<and> zoom_ok (viewer_step U v c)"
  by (cases c)
    (simp_all add: rotate_pitch_ok setZoom_zoom_ok, simp_all add: zoom_ok_def pitch_ok_def rotate_zoom setZoom_pitch)

lemma viewer_run_ok:
  "pitch_ok v \<and> zoom_ok v \<Longrightarrow>
   pitch_ok (foldl (viewer_step U) v calls) \<and> zoom_ok (foldl (viewer_step U) v calls)"
proof (induction calls arbitrary: v)
  case Nil
  then show ?case by simp
next
  case (Cons c calls)
  from viewer_step_ok [OF Cons.prems] have "pitch_ok (viewer_step U v c) \<and> zoom_ok (viewer_step U v c)" .
  from Cons.IH [OF this] show ?case by simp
qed

lemma PointCloudViewer_new_ok: "pitch_ok (PointCloudViewer_new w h) \<and> zoom_ok (PointCloudViewer_new w h)"
  by (simp add: pitch_ok_def zoom_ok_def PointCloudViewer_new_def)

lemma viewer_step_pitch: "pitch_ok v \<Longrightarrow> pitch_ok (viewer_step U v c)"
  by (cases c) (simp_all add: rotate_pitch_ok, simp add: pitch_ok_def setZoom_pitch)

lemma viewer_step_zoom: "zoom_ok v \<Longrightarrow> zoom_ok (viewer_step U v c)"
  by (cases c) (simp_all add: setZoom_zoom_ok, simp add: zoom_ok_def rotate_zoom)

lemma viewer_run_pitch:
  "pitch_ok v \<or> (\<exists>dy dp. Rotate dy dp \<in> set calls) \<Longrightarrow>
   pitch_ok (foldl (viewer_step U) v calls)"
proof (induction calls arbitrary: v)
  case Nil
  then show ?case by simp
next
  case (Cons c calls)
  have "pitch_ok (viewer_step U v c) \<or> (\<exists>dy dp. Rotate dy dp \<in> set calls)"
  proof (cases c)
    case (Rotate dy dp)
    then show ?thesis by (simp add: rotate_pitch_ok)
  next
    case (SetZoom z)
    with Cons.prems viewer_step_pitch [of v U c] show ?thesis by auto
  qed
  from Cons.IH [OF this] show ?case by simp
qed

lemma viewer_run_zoom:
  "zoom_ok v \<or> (\<exists>z. SetZoom z \<in> set calls) \<Longrightarrow>
   zoom_ok (foldl (viewer_step U) v calls)"
proof (induction calls arbitrary: v)
  case Nil
  then show ?case by simp
next
  case (Cons c calls)
  have "zoom_ok (viewer_step U v c) \<or> (\<exists>z. SetZoom z \<in> set calls)"
  proof (cases c)
    case (SetZoom z)
    then show ?thesis by (simp add: setZoom_zoom_ok)
  next
    case (Rotate dy dp)
    with Cons.prems viewer_step_zoom [of v U c] show ?thesis by auto
  qed
  from Cons.IH [OF this] show ?case by simp
qed

text \<open>
  C5. Whatever the viewer's state and whatever the arguments (finite, infinite or NaN, and
  whatever the addition rounds to), \<^verbatim>\<open>rotate\<close> leaves the pitch in \<open>[-1.5, 1.5]\<close> and
  \<^verbatim>\<open>setZoom\<close> leaves the zoom in \<open>[50, 500]\<close>. The constructor's state has both in range, and
  from a state that has, every sequence of \<^verbatim>\<open>rotate\<close> and \<^verbatim>\<open>setZoom\<close> calls ends in one
  that has. From any state at all, a sequence with a \<^verbatim>\<open>rotate\<close> in it ends with the pitch in
  range and a sequence with a \<^verbatim>\<open>setZoom\<close> in it ends with the zoom in range.
\<close>

theorem viewer_clamped:
  "pitch_ok (PointCloudViewer_rotate U v dy dp)
   \<and> zoom_ok (PointCloudViewer_setZoom v z)
   \<and> (pitch_ok v \<and> zoom_ok v \<longrightarrow>
        pitch_ok (foldl (viewer_step U) v calls) \<and> zoom_ok (foldl (viewer_step U) v calls))
   \<and> ((\<exists>dy dp. Rotate dy dp \<in> set calls) \<longrightarrow> pitch_ok (foldl (viewer_step U) v calls))
   \<and> ((\<exists>z. SetZoom z \<in> set calls) \<longrightarrow> zoom_ok (foldl (viewer_step U) v calls))
   \<and> pitch_ok (PointCloudViewer_new w h) \<and> zoom_ok (PointCloudViewer_new w h)"
  using rotate_pitch_ok [of U v dy dp] setZoom_zoom_ok [of v z] viewer_run_ok [of v U calls]
    viewer_run_pitch [of v calls U] viewer_run_zoom [of v calls U] PointCloudViewer_new_ok [of w h]
  by blast

text \<open>
  From the constructor's state: a huge rotation, an infinite zoom, a NaN rotation and a
  negative zoom end with the pitch at 1.5 and the zoom at 50.
\<close>

theorem viewer_clamped_witness:
  "pitch_ok (foldl (viewer_step exact_fpu) (PointCloudViewer_new 1280 360)
      [Rotate (Fin 1000000) (Fin 1000000), SetZoom PInf, Rotate NaN NaN, SetZoom (Fin (- 7))])
   \<and> zoom_ok (foldl (viewer_step exact_fpu) (PointCloudViewer_new 1280 360)
      [Rotate (Fin 1000000) (Fin 1000000), SetZoom PInf, Rotate NaN NaN, SetZoom (Fin (- 7))])
   \<and> pitch (foldl (viewer_step exact_fpu) (PointCloudViewer_new 1280 360)
      [Rotate (Fin 1000000) (Fin 1000000), SetZoom PInf, Rotate NaN NaN, SetZoom (Fin (- 7))]) = Fin (3 / 2)
   \<and> zoom (foldl (viewer_step exact_fpu) (PointCloudViewer_new 1280 360)
      [Rotate (Fin 1000000) (Fin 1000000), SetZoom PInf, Rotate NaN NaN, SetZoom (Fin (- 7))]) = Fin 50"
proof -
  have ok: "pitch_ok (PointCloudViewer_new 1280 360) \<and> zoom_ok (PointCloudViewer_new 1280 360)"
    by (simp add: pitch_ok_def zoom_ok_def PointCloudViewer_new_def)
  have val: "pitch (foldl (viewer_step exact_fpu) (PointCloudViewer_new 1280 360)
      [Rotate (Fin 1000000) (Fin 1000000), SetZoom PInf, Rotate NaN NaN, SetZoom (Fin (- 7))]) = Fin (3 / 2)
   \<and> zoom (foldl (viewer_step exact_fpu) (PointCloudViewer_new 1280 360)
      [Rotate (Fin 1000000) (Fin 1000000), SetZoom PInf, Rotate NaN NaN, SetZoom (Fin (- 7))]) = Fin 50"
    by (simp add: PointCloudViewer_new_def PointCloudViewer_rotate_def PointCloudViewer_setZoom_def exact_fpu_def std_max_def std_min_def Let_def)
  from ok val viewer_clamped [where v = "PointCloudViewer_new 1280 360" and U = exact_fpu
      and calls = "[Rotate (Fin 1000000) (Fin 1000000), SetZoom PInf, Rotate NaN NaN, SetZoom (Fin (- 7))]"]
  show ?thesis by blast
qed

section \<open>Properties of the 3D projection\<close>

lemma project_sample_behind:
  "fle (sample_rz U v g x y) c0_1f \<Longrightarrow> project_sample U v g x y = None"
  by (auto simp: project_sample_def sample_rz_def sample_depth_def Let_def split: prod.splits)

lemma project_sample_Some_rz:
  "project_sample U v g x y = Some w \<Longrightarrow> \<not> fle (sample_rz U v g x y) c0_1f"
  using project_sample_behind by fastforce

lemma foldl_write_pixel:
  "foldl (\<lambda>d k. write_pixel d (f k)) d0 ks p = d0 p
   \<or> (\<exists>k \<in> set ks. \<exists>c. f k = Some (fst p, snd p, c) \<and> foldl (\<lambda>d k. write_pixel d (f k)) d0 ks p = c)"
proof (induction ks rule: rev_induct)
  case Nil
  then show ?case by simp
next
  case (snoc k ks)
  show ?case
  proof (cases "f k")
    case None
    with snoc show ?thesis by (auto simp: write_pixel_def)
  next
    case (Some w)
    obtain py px c where w: "w = (py, px, c)" by (cases w)
    show ?thesis
    proof (cases "p = (py, px)")
      case True
      with Some w have "foldl (\<lambda>d k. write_pixel d (f k)) d0 (ks @ [k]) p = c"
        by (simp add: write_pixel_def)
      with Some w True show ?thesis
        by (intro disjI2 bexI [of _ k] exI [of _ c]) simp_all
    next
      case False
      with Some w snoc show ?thesis by (auto simp: write_pixel_def)
    qed
  qed
qed

lemma project_pixel_origin:
  "project U v g p = background p
   \<or> (\<exists>(x, y) \<in> set (scan_order 3 (depth_width g) (depth_height g)).
        \<exists>c. project_sample U v g x y = Some (fst p, snd p, c) \<and> project U v g p = c)"
proof -
  have e: "(\<lambda>display (x, y). write_pixel display (project_sample U v g x y))
      = (\<lambda>d k. write_pixel d ((\<lambda>(x, y). project_sample U v g x y) k))"
    by (auto simp: fun_eq_iff)
  from foldl_write_pixel [of "\<lambda>(x, y). project_sample U v g x y" background
      "scan_order 3 (depth_width g) (depth_height g)" p]
  show ?thesis unfolding project_def e by fastforce
qed

lemma sin_1_ge_half: "1 / 2 \<le> sin (1 :: real)"
proof -
  have "sin (pi / 6) \<le> sin (1 :: real)"
  proof (rule sin_monotone_2pi_le)
    show "- (pi / 2) \<le> pi / 6" using pi_gt_zero by simp
    show "pi / 6 \<le> 1" using pi_less_4 by simp
    show "(1 :: real) \<le> pi / 2" using pi_ge_two by simp
  qed
  then show ?thesis by (simp add: sin_30)
qed

text \<open>
  C8. A sample whose rotated depth coordinate, after the move back by 2, is at most
  \<^verbatim>\<open>0.1f\<close> writes no pixel; and every pixel of the rendered canvas that is not the
  background colour was written by a sample of the scan whose \<^verbatim>\<open>rz\<close> is not at most
  \<^verbatim>\<open>0.1f\<close> and whose raw depth is not zero. This holds for every yaw, pitch and zoom and
  whatever the floating-point operations return.
\<close>

theorem project_discards_behind_camera:
  "(fle (sample_rz U v g x y) c0_1f \<longrightarrow> project_sample U v g x y = None)
   \<and> (project U v g p = background p
       \<or> (\<exists>(x, y) \<in> set (scan_order 3 (depth_width g) (depth_height g)).
            \<exists>c. project_sample U v g x y = Some (fst p, snd p, c) \<and> project U v g p = c
                 \<and> \<not> fle (sample_rz U v g x y) c0_1f
                 \<and> depth_at g x y \<noteq> 0))"
proof -
  have z: "project_sample U v g x y = Some w \<Longrightarrow> depth_at g x y \<noteq> 0" for x y w
    by (auto simp: project_sample_def Let_def split: if_splits)
  from project_pixel_origin [of U v g p] project_sample_Some_rz [of U v g] z
  show ?thesis using project_sample_behind by fastforce
qed

text \<open>
  A viewer pitched to 1 radian looking at a 6 by 6 grid of samples at 5000: the centre sample
  has \<^verbatim>\<open>rz = 2 - 5 sin 1\<close>, below zero, and writes nothing.
\<close>

theorem project_discards_behind_camera_witness:
  "fle (sample_rz exact_fpu
         \<lparr>yaw = Fin 0, pitch = Fin 1, zoom = Fin 150, width = 1280, height = 360\<rparr>
         \<lparr>depth_width = 6, depth_height = 6, value_scale = Fin 1, depth_data = replicate 36 5000\<rparr>
         3 3) c0_1f
   \<and> project_sample exact_fpu
         \<lparr>yaw = Fin 0, pitch = Fin 1, zoom = Fin 150, width = 1280, height = 360\<rparr>
         \<lparr>depth_width = 6, depth_height = 6, value_scale = Fin 1, depth_data = replicate 36 5000\<rparr>
         3 3 = None"
proof -
  have rz: "sample_rz exact_fpu
         \<lparr>yaw = Fin 0, pitch = Fin 1, zoom = Fin 150, width = 1280, height = 360\<rparr>
         \<lparr>depth_width = 6, depth_height = 6, value_scale = Fin 1, depth_data = replicate 36 5000\<rparr>
         3 3 = Fin (2 - 5 * sin 1)"
    by (simp add: sample_rz_def sample_depth_def rotated_point_def camera_point_def exact_fpu_def
        depth_at_def Let_def)
  have behind: "fle (sample_rz exact_fpu
         \<lparr>yaw = Fin 0, pitch = Fin 1, zoom = Fin 150, width = 1280, height = 360\<rparr>
         \<lparr>depth_width = 6, depth_height = 6, value_scale = Fin 1, depth_data = replicate 36 5000\<rparr>
         3 3) c0_1f"
    using sin_1_ge_half by (simp add: rz c0_1f_def)
  with project_discards_behind_camera [where U = exact_fpu
      and v = "\<lparr>yaw = Fin 0, pitch = Fin 1, zoom = Fin 150, width = 1280, height = 360\<rparr>"
      and g = "\<lparr>depth_width = 6, depth_height = 6, value_scale = Fin 1, depth_data = replicate 36 5000\<rparr>"
      and x = 3 and y = 3]
  show ?thesis by blast
qed

section \<open>Properties of the depth admission\<close>









lemma scan_order_4x4: "scan_order 4 4 4 = [(0, 0)]"
  by (simp add: scan_order_def strided_def)

lemma Map2D_project_4x4:
  "depth_width g = 4 \<Longrightarrow> depth_height g = 4 \<Longrightarrow>
   Map2D_project U g img = draw_sample img (Map2D_sample U g 0 0)"
  by (simp add: Map2D_project_def scan_order_4x4)








lemma set3_bytes:
  "idx + 2 < length img \<Longrightarrow>
   set3 img idx a b c ! idx = a \<and> set3 img idx a b c ! (idx + 1) = b
     \<and> set3 img idx a b c ! (idx + 2) = c"
  by (simp add: set3_def)

lemma Map2D_project_4x4_drawn:
  assumes grid: "depth_width g = 4" "depth_height g = 4"
    and drawn: "Map2D_sample U g 0 0 = Some (idx, r, gr, b)"
  shows "Map2D_project U g img = set3 img idx r gr b"
  using Map2D_project_4x4 [OF grid, of U img] by (simp add: drawn draw_sample_def)





section \<open>Properties of the accumulation buffers\<close>

lemma push_sample_lengths:
  "length (fst acc) = length (snd acc) \<Longrightarrow>
   length (fst (push_sample acc s)) = length (snd (push_sample acc s))"
  by (auto simp: push_sample_def split: option.splits)

lemma foldl_push_lengths:
  "length (fst acc) = length (snd acc) \<Longrightarrow>
   length (fst (foldl (\<lambda>acc k. push_sample acc (f k)) acc ks))
     = length (snd (foldl (\<lambda>acc k. push_sample acc (f k)) acc ks))"
proof (induction ks arbitrary: acc)
  case Nil
  then show ?case by simp
next
  case (Cons k ks)
  from push_sample_lengths [OF Cons.prems]
  have "length (fst (push_sample acc (f k))) = length (snd (push_sample acc (f k)))" .
  from Cons.IH [OF this] show ?case by simp
qed

lemma Map3D_convert_lengths:
  "length (fst (Map3D_convert U g cf)) = length (snd (Map3D_convert U g cf))"
proof -
  have e: "(\<lambda>acc (x, y). push_sample acc (Map3D_sample U g cf x y))
      = (\<lambda>acc k. push_sample acc ((\<lambda>(x, y). Map3D_sample U g cf x y) k))"
    by (auto simp: fun_eq_iff)
  show ?thesis
    unfolding Map3D_convert_def e by (rule foldl_push_lengths) simp
qed

lemma Map3D_accumulate_buffers:
  assumes "accumulate m" "newPoints \<noteq> []"
  shows "accumulatedPoints (Map3D_accumulate m newPoints newColors)
           = drop (length (accumulatedPoints m @ newPoints) - maxPoints m) (accumulatedPoints m @ newPoints)"
    and "accumulatedColors (Map3D_accumulate m newPoints newColors)
           = drop (length (accumulatedPoints m @ newPoints) - maxPoints m) (accumulatedColors m @ newColors)"
    and "maxPoints (Map3D_accumulate m newPoints newColors) = maxPoints m"
    and "accumulate (Map3D_accumulate m newPoints newColors) = accumulate m"
  using assms by (simp_all add: Map3D_accumulate_def Let_def)

lemma Map3D_accumulate_off:
  "\<not> (accumulate m \<and> newPoints \<noteq> []) \<Longrightarrow> Map3D_accumulate m newPoints newColors = m"
  by (cases "accumulate m"; cases "newPoints = []"; simp add: Map3D_accumulate_def)

lemma Map3D_accumulate_inv:
  assumes "map3d_inv m" "length newPoints = length newColors"
  shows "map3d_inv (Map3D_accumulate m newPoints newColors)"
proof (cases "accumulate m \<and> newPoints \<noteq> []")
  case True
  with assms show ?thesis
    by (auto simp: map3d_inv_def Map3D_accumulate_buffers)
next
  case False
  with assms show ?thesis by (simp add: Map3D_accumulate_off)
qed

lemma Map3D_accumulate_maxPoints: "maxPoints (Map3D_accumulate m np nc) = maxPoints m"
  by (simp add: Map3D_accumulate_def Let_def)

lemma map3d_step_inv:
  "map3d_inv m \<Longrightarrow> map3d_inv (map3d_step U m c)"
proof (cases c)
  case (Update3D g cf)
  assume inv: "map3d_inv m"
  obtain np nc where conv: "Map3D_convert U g cf = (np, nc)" by (cases "Map3D_convert U g cf")
  with Map3D_convert_lengths [of U g cf] have "length np = length nc" by simp
  from Map3D_accumulate_inv [OF inv this] Update3D conv show ?thesis
    by (simp add: Map3D_update_def)
next
  case Clear3D
  assume "map3d_inv m"
  with Clear3D show ?thesis by (simp add: map3d_inv_def Map3D_clear_def)
next
  case Toggle3D
  assume "map3d_inv m"
  with Toggle3D show ?thesis
    by (simp add: map3d_inv_def toggleAccumulation_def Map3D_clear_def Let_def)
qed

lemma map3d_step_maxPoints: "maxPoints (map3d_step U m c) = maxPoints m"
  by (cases c) (simp_all add: Map3D_update_def Map3D_accumulate_maxPoints Map3D_clear_def
      toggleAccumulation_def Let_def split: prod.splits)

lemma map3d_run_inv:
  "map3d_inv m \<Longrightarrow> map3d_inv (foldl (map3d_step U) m calls)
     \<and> maxPoints (foldl (map3d_step U) m calls) = maxPoints m"
proof (induction calls arbitrary: m)
  case Nil
  then show ?case by simp
next
  case (Cons c calls)
  from map3d_step_inv [OF Cons.prems] have "map3d_inv (map3d_step U m c)" .
  from Cons.IH [OF this] show ?case by (simp add: map3d_step_maxPoints)
qed

lemma zip_drop: "zip (drop n xs) (drop n ys) = drop n (zip xs ys)"
  by (simp add: drop_zip)

lemma Map3D_update_fifo:
  assumes "accumulate m" "fst (Map3D_convert U g cf) \<noteq> []"
  shows "accumulatedPoints (Map3D_update U m g cf)
          = drop (length (accumulatedPoints m @ fst (Map3D_convert U g cf)) - maxPoints m)
              (accumulatedPoints m @ fst (Map3D_convert U g cf))"
    and "accumulatedColors (Map3D_update U m g cf)
          = drop (length (accumulatedPoints m @ fst (Map3D_convert U g cf)) - maxPoints m)
              (accumulatedColors m @ snd (Map3D_convert U g cf))"
    and "zip (accumulatedPoints (Map3D_update U m g cf)) (accumulatedColors (Map3D_update U m g cf))
          = drop (length (accumulatedPoints m @ fst (Map3D_convert U g cf)) - maxPoints m)
              (zip (accumulatedPoints m @ fst (Map3D_convert U g cf))
                   (accumulatedColors m @ snd (Map3D_convert U g cf)))"
proof -
  obtain np nc where conv: "Map3D_convert U g cf = (np, nc)" by (cases "Map3D_convert U g cf")
  with assms(2) have ne: "np \<noteq> []" by simp
  have u: "Map3D_update U m g cf = Map3D_accumulate m np nc"
    by (simp add: Map3D_update_def conv)
  note p = Map3D_accumulate_buffers(1) [OF assms(1) ne, of nc]
  note c = Map3D_accumulate_buffers(2) [OF assms(1) ne, of nc]
  show "accumulatedPoints (Map3D_update U m g cf)
          = drop (length (accumulatedPoints m @ fst (Map3D_convert U g cf)) - maxPoints m)
              (accumulatedPoints m @ fst (Map3D_convert U g cf))"
    unfolding u conv fst_conv snd_conv by (rule p)
  show "accumulatedColors (Map3D_update U m g cf)
          = drop (length (accumulatedPoints m @ fst (Map3D_convert U g cf)) - maxPoints m)
              (accumulatedColors m @ snd (Map3D_convert U g cf))"
    unfolding u conv fst_conv snd_conv by (rule c)
  show "zip (accumulatedPoints (Map3D_update U m g cf)) (accumulatedColors (Map3D_update U m g cf))
          = drop (length (accumulatedPoints m @ fst (Map3D_convert U g cf)) - maxPoints m)
              (zip (accumulatedPoints m @ fst (Map3D_convert U g cf))
                   (accumulatedColors m @ snd (Map3D_convert U g cf)))"
    unfolding u conv fst_conv snd_conv p c zip_drop by (rule refl)
qed

text \<open>
  C9. After any sequence of \<^verbatim>\<open>update\<close>, \<^verbatim>\<open>clear\<close> and \<^verbatim>\<open>toggleAccumulation\<close> calls on a
  new \<^verbatim>\<open>Map3D\<close> the point buffer and the colour buffer have the same length, at most
  100000. Every \<^verbatim>\<open>update\<close> keeps the invariant (equal lengths, at most \<^verbatim>\<open>maxPoints\<close>).
  When accumulation is on and the frame gives new points, the buffers after the update are
  the old ones followed by the new points and colours, without their first \<open>excess\<close>
  elements, where \<open>excess\<close> is what the appended length has above \<^verbatim>\<open>maxPoints\<close> (zero when
  it is not above): the oldest entries go, the same number from both buffers, so that point
  and colour stay paired.
\<close>

theorem Map3D_bounded_fifo:
  "length (accumulatedPoints (foldl (map3d_step U) Map3D_new calls))
     = length (accumulatedColors (foldl (map3d_step U) Map3D_new calls))
   \<and> length (accumulatedPoints (foldl (map3d_step U) Map3D_new calls)) \<le> 100000
   \<and> (map3d_inv m \<longrightarrow> map3d_inv (Map3D_update U m g cf))
   \<and> (accumulate m \<and> fst (Map3D_convert U g cf) \<noteq> [] \<longrightarrow>
        accumulatedPoints (Map3D_update U m g cf)
          = drop (length (accumulatedPoints m @ fst (Map3D_convert U g cf)) - maxPoints m)
              (accumulatedPoints m @ fst (Map3D_convert U g cf))
        \<and> accumulatedColors (Map3D_update U m g cf)
          = drop (length (accumulatedPoints m @ fst (Map3D_convert U g cf)) - maxPoints m)
              (accumulatedColors m @ snd (Map3D_convert U g cf))
        \<and> zip (accumulatedPoints (Map3D_update U m g cf)) (accumulatedColors (Map3D_update U m g cf))
          = drop (length (accumulatedPoints m @ fst (Map3D_convert U g cf)) - maxPoints m)
              (zip (accumulatedPoints m @ fst (Map3D_convert U g cf))
                   (accumulatedColors m @ snd (Map3D_convert U g cf))))"
proof -
  have init: "map3d_inv Map3D_new" "maxPoints Map3D_new = 100000"
    by (simp_all add: map3d_inv_def Map3D_new_def)
  from map3d_run_inv [OF init(1), of U calls] init(2)
  have run: "length (accumulatedPoints (foldl (map3d_step U) Map3D_new calls))
     = length (accumulatedColors (foldl (map3d_step U) Map3D_new calls))"
    "length (accumulatedPoints (foldl (map3d_step U) Map3D_new calls)) \<le> 100000"
    by (simp_all add: map3d_inv_def)
  have step: "map3d_inv m \<longrightarrow> map3d_inv (Map3D_update U m g cf)"
    using map3d_step_inv [of m U "Update3D g cf"] by simp
  from run step Map3D_update_fifo [of m U g cf] show ?thesis by (intro conjI impI) simp_all
qed

text \<open>
  With a cap of one entry, a buffer holding one point and a frame that gives one new point:
  the old point and its colour go, the new pair stays.
\<close>

theorem Map3D_bounded_fifo_witness:
  "map3d_inv \<lparr>accumulatedPoints = [(Fin 0, Fin 0, Fin 1)], accumulatedColors = [(1, 2, 3)],
       maxPoints = 1, accumulate = True\<rparr>
   \<and> Map3D_convert exact_fpu
       \<lparr>depth_width = 2, depth_height = 2, value_scale = Fin 1, depth_data = [1000, 0, 0, 0]\<rparr> None
     = ([(Fin (- (64 / 105)), Fin (- (16 / 35)), Fin 1)], [(191, 96, 63)])
   \<and> Map3D_update exact_fpu
       \<lparr>accumulatedPoints = [(Fin 0, Fin 0, Fin 1)], accumulatedColors = [(1, 2, 3)],
         maxPoints = 1, accumulate = True\<rparr>
       \<lparr>depth_width = 2, depth_height = 2, value_scale = Fin 1, depth_data = [1000, 0, 0, 0]\<rparr> None
     = \<lparr>accumulatedPoints = [(Fin (- (64 / 105)), Fin (- (16 / 35)), Fin 1)],
        accumulatedColors = [(191, 96, 63)], maxPoints = 1, accumulate = True\<rparr>"
proof -
  let ?m = "\<lparr>accumulatedPoints = [(Fin 0, Fin 0, Fin 1)], accumulatedColors = [(1, 2, 3)],
       maxPoints = 1, accumulate = True\<rparr>"
  let ?g = "\<lparr>depth_width = 2, depth_height = 2, value_scale = Fin 1, depth_data = [1000, 0, 0, 0]\<rparr>"
  have inv: "map3d_inv ?m" by (simp add: map3d_inv_def)
  have conv: "Map3D_convert exact_fpu ?g None
      = ([(Fin (- (64 / 105)), Fin (- (16 / 35)), Fin 1)], [(191, 96, 63)])"
    by (simp add: Map3D_convert_def scan_order_def strided_def Map3D_sample_def push_sample_def
        depth_at_def depth_m_of_def exact_fpu_def max_range_def c0_3f_def Let_def)
  have hyp: "accumulate ?m \<and> fst (Map3D_convert exact_fpu ?g None) \<noteq> []"
    by (simp add: conv)
  from inv hyp Map3D_bounded_fifo [where U = exact_fpu and m = ?m and g = ?g and cf = None]
  have bufs: "accumulatedPoints (Map3D_update exact_fpu ?m ?g None) = [(Fin (- (64 / 105)), Fin (- (16 / 35)), Fin 1)]"
    "accumulatedColors (Map3D_update exact_fpu ?m ?g None) = [(191, 96, 63)]"
    by (simp_all add: conv)
  have rest: "maxPoints (Map3D_update exact_fpu ?m ?g None) = 1"
    "accumulate (Map3D_update exact_fpu ?m ?g None) = True"
    by (simp_all add: Map3D_update_def Map3D_accumulate_def conv Let_def)
  from bufs rest have "Map3D_update exact_fpu ?m ?g None
     = \<lparr>accumulatedPoints = [(Fin (- (64 / 105)), Fin (- (16 / 35)), Fin 1)],
        accumulatedColors = [(191, 96, 63)], maxPoints = 1, accumulate = True\<rparr>"
    by (cases "Map3D_update exact_fpu ?m ?g None") simp
  with inv conv show ?thesis by simp
qed

end
